theory Spec2Isabelle
  imports Main "HOL-Library.AList" "HOL-Library.Char_ord" "HOL-Library.List_Lexorder"
    "HOL-Library.Product_Lexorder"
begin

section \<open>Run status\<close>

text \<open>
  The enum \<^verbatim>\<open>Status\<close> of both functions: \<^verbatim>\<open>error = -1, auth = 0, fork, clone, branch,
  checkout, upgrade, add, commit, push, star, pr, done\<close>. The members are capitalised here
  (\<^verbatim>\<open>done\<close> is a keyword of the proof language); \<open>ordinal\<close> is the number TypeScript
  gives each member, which is what the table stores.
\<close>

datatype Status =
  Error | Auth | Fork | Clone | Branch | Checkout | Upgrade | Add | Commit | Push | Star | Pr | Done

fun ordinal :: "Status \<Rightarrow> int" where
  "ordinal Error = -1"
| "ordinal Auth = 0"
| "ordinal Fork = 1"
| "ordinal Clone = 2"
| "ordinal Branch = 3"
| "ordinal Checkout = 4"
| "ordinal Upgrade = 5"
| "ordinal Add = 6"
| "ordinal Commit = 7"
| "ordinal Push = 8"
| "ordinal Star = 9"
| "ordinal Pr = 10"
| "ordinal Done = 11"

section \<open>Errors, entities and the table service\<close>

text \<open>
  A thrown value: the \<^verbatim>\<open>TypeError\<close> the runtime raises on \<^verbatim>\<open>undefined.slice\<close>, an error
  of the table service, or whatever a collaborator (GitHub client, git, ts-upgrade) throws.
\<close>

datatype exn = TypeError | StorageError string | Thrown string

text \<open>
  An entity is a property bag, in the order the object literal lists its properties;
  \<^verbatim>\<open>entGen.String\<close> and \<^verbatim>\<open>entGen.Int32\<close> are the two value constructors the code uses.
  The other two values are the ones the service adds to an entity it returns: the
  \<^verbatim>\<open>Timestamp\<close> of the row and the \<^verbatim>\<open>.metadata\<close> object with its etag.
\<close>

datatype Edm = EdmString string | EdmInt32 int | EdmDateTime string | Metadata string

type_synonym Entity = "(string \<times> Edm) list"

text \<open>
  A table holds one entity per (PartitionKey, RowKey); the service holds tables by name.
  The list keeps the rows in the order in which their keys were first inserted; a query
  sorts them, as the service answers in the order of PartitionKey, then RowKey.
\<close>

type_synonym Table = "((string \<times> string) \<times> Entity) list"

type_synonym Tables = "(string \<times> Table) list"

definition entityKey :: "Entity \<Rightarrow> (string \<times> string) option" where
  "entityKey entry =
     (case (map_of entry ''PartitionKey'', map_of entry ''RowKey'') of
        (Some (EdmString p), Some (EdmString r)) \<Rightarrow> Some (p, r)
      | _ \<Rightarrow> None)"

text \<open>\<^verbatim>\<open>azure.TableQuery().where(stringFilter(property, EQUAL, value))\<close>\<close>

datatype TableQuery = WhereStringEqual string string

datatype TableRequest =
    CreateTableIfNotExists string
  | InsertOrReplaceEntity string Entity
  | InsertOrMergeEntity string Entity
  | QueryEntities string TableQuery

text \<open>
  What the table service does with a request it accepts. Replace stores the entity as
  given; merge keeps the stored properties the new entity does not name and overwrites the
  ones it names; both insert when the row is absent. A request on a table that does not
  exist is answered with an error, as is an entity without its two keys.
\<close>

fun applyRequest :: "TableRequest \<Rightarrow> Tables \<Rightarrow> exn + Tables" where
  "applyRequest (CreateTableIfNotExists tableName) ts =
     (case map_of ts tableName of
        None \<Rightarrow> Inr (AList.update tableName [] ts)
      | Some t \<Rightarrow> Inr ts)"
| "applyRequest (InsertOrReplaceEntity tableName entry) ts =
     (case map_of ts tableName of
        None \<Rightarrow> Inl (StorageError ''TableNotFound'')
      | Some t \<Rightarrow>
          (case entityKey entry of
             None \<Rightarrow> Inl (StorageError ''PropertiesNeedValue'')
           | Some k \<Rightarrow> Inr (AList.update tableName (AList.update k entry t) ts)))"
| "applyRequest (InsertOrMergeEntity tableName entry) ts =
     (case map_of ts tableName of
        None \<Rightarrow> Inl (StorageError ''TableNotFound'')
      | Some t \<Rightarrow>
          (case entityKey entry of
             None \<Rightarrow> Inl (StorageError ''PropertiesNeedValue'')
           | Some k \<Rightarrow>
               Inr (AList.update tableName
                      (AList.update k
                         (case map_of t k of
                            None \<Rightarrow> entry
                          | Some old \<Rightarrow> AList.merge old entry) t) ts)))"
| "applyRequest (QueryEntities tableName query) ts =
     (case map_of ts tableName of
        None \<Rightarrow> Inl (StorageError ''TableNotFound'')
      | Some t \<Rightarrow> Inr ts)"

text \<open>
  A filter on one of the two key properties is a filter on the key of the row; a filter on
  any other property reads the entity.
\<close>

fun matches :: "TableQuery \<Rightarrow> (string \<times> string) \<times> Entity \<Rightarrow> bool" where
  "matches (WhereStringEqual property v) (k, entry) =
     (if property = ''PartitionKey'' then fst k = v
      else if property = ''RowKey'' then snd k = v
      else map_of entry property = Some (EdmString v))"

text \<open>
  The rows a query selects, in the order the service lists them: by PartitionKey, then by
  RowKey, each compared character by character.
\<close>

definition matchingRows :: "TableQuery \<Rightarrow> Table \<Rightarrow> ((string \<times> string) \<times> Entity) list" where
  "matchingRows query t = filter (matches query) (sort_key fst t)"

section \<open>Collaborators, environment and the world\<close>

text \<open>
  The thirteen collaborator call sites of \<^verbatim>\<open>main\<close>'s try block, in program order
  (\<^verbatim>\<open>doUpgrade\<close>'s \<^verbatim>\<open>main\<close> has twelve of them: it does not star the repository).
\<close>

datatype Site =
    NewOctokit | CreateFork | GitClone | GitCheckoutTarget | GitLog | GitBranch
  | GitCheckoutWorking | UpgradeFromProject | GitAdd | GitCommit | GitPush
  | StarRepo | PullsCreate

text \<open>The call made at a site, with the arguments the claims read.\<close>

datatype Call =
    Octokit string
  | Repos_createFork string string
  | Git_clone string string
  | Git_checkout string string
  | Git_log string string
  | Git_branch string string
  | Upgrade_upgradeFromProject string int
  | Git_add string string
  | Git_commit string string string string
  | Git_push string string string bool string
  | Activity_starRepoForAuthenticatedUser string string
  | Pulls_create string string string string string

datatype Event = Collab Site Call | Ledger TableRequest

record CommitObject =
  message :: string
  tree :: string

record ReadCommitResult =
  oid :: string
  commit :: CommitObject

record ForkData =
  html_url :: string
  clone_url :: string

text \<open>
  Everything outside the program that a run depends on: whether
  \<^verbatim>\<open>azure.createTableService\<close> throws on a connection string (\<open>None\<close> is
  \<^verbatim>\<open>undefined\<close>: the library then looks for credentials elsewhere and throws when it finds
  none), the connection string in the process environment of the query function, the
  Timestamp and etag the service holds for a row, whether the call at a site throws,
  whether the table service rejects a request, and the data the collaborators return
  (\<open>tempPath\<close> is \<^verbatim>\<open>path.join(os.tmpdir(), uuid.v4())\<close>; \<open>Latest\<close> and \<open>v3_8\<close> are
  \<^verbatim>\<open>upgrade.TypeScriptVersion.Latest\<close> and \<^verbatim>\<open>upgrade.TypeScriptVersion.v3_8\<close>).
\<close>

record Env =
  createTableServiceThrows :: "string option \<Rightarrow> exn option"
  AZURE_CONNECTION_STRING :: "string option"
  serviceProperties :: "string \<Rightarrow> string \<times> string \<Rightarrow> string \<times> string"
  throws :: "Site \<Rightarrow> exn option"
  rejects :: "TableRequest \<Rightarrow> exn option"
  tempPath :: string
  forkResult :: ForkData
  commits :: "ReadCommitResult list"
  prResult :: string
  Latest :: int
  v3_8 :: int

text \<open>The state a run changes: the tables of the service, and the calls issued so far.\<close>

record World =
  tables :: Tables
  trace :: "Event list"

record Options =
  authToken :: string
  connectionString :: string
  owner :: string
  repo :: string
  id_opt :: "string option"
  branch_opt :: "string option"
  version_opt :: "int option"

section \<open>Promises\<close>

text \<open>
  An awaited promise either resolves with a value or rejects with a thrown value, and
  leaves the world changed either way.
\<close>

type_synonym 'a Async = "World \<Rightarrow> (exn + 'a) \<times> World"

definition resolve :: "'a \<Rightarrow> 'a Async" where
  "resolve x = (\<lambda>w. (Inr x, w))"

definition reject :: "exn \<Rightarrow> 'a Async" where
  "reject e = (\<lambda>w. (Inl e, w))"

definition andThen :: "'a Async \<Rightarrow> ('a \<Rightarrow> 'b Async) \<Rightarrow> 'b Async" where
  "andThen m f = (\<lambda>w. case m w of (Inl e, w') \<Rightarrow> (Inl e, w') | (Inr x, w') \<Rightarrow> f x w')"

definition tryCatch :: "'a Async \<Rightarrow> (exn \<Rightarrow> 'a Async) \<Rightarrow> 'a Async" where
  "tryCatch m h = (\<lambda>w. case m w of (Inl e, w') \<Rightarrow> h e w' | (Inr x, w') \<Rightarrow> (Inr x, w'))"

text \<open>\<^verbatim>\<open>if (id) { ... }\<close>: an absent id and the empty string are both falsy.\<close>

fun ifTruthy :: "string option \<Rightarrow> (string \<Rightarrow> unit Async) \<Rightarrow> unit Async" where
  "ifTruthy None f = resolve ()"
| "ifTruthy (Some v) f = (if v = [] then resolve () else f v)"

text \<open>A collaborator call: it is issued, then it throws or returns as the environment says.\<close>

definition perform :: "Env \<Rightarrow> Site \<Rightarrow> Call \<Rightarrow> unit Async" where
  "perform env site c =
     (\<lambda>w. let w' = w\<lparr>trace := trace w @ [Collab site c]\<rparr>
          in case throws env site of Some e \<Rightarrow> (Inl e, w') | None \<Rightarrow> (Inr (), w'))"

text \<open>
  \<^verbatim>\<open>azure.createTableService(connectionString)\<close>: it builds the client, or throws; nothing
  is sent to the service.
\<close>

definition createTableService :: "Env \<Rightarrow> string option \<Rightarrow> unit Async" where
  "createTableService env conn =
     (\<lambda>w. case createTableServiceThrows env conn of Some e \<Rightarrow> (Inl e, w) | None \<Rightarrow> (Inr (), w))"

text \<open>
  A request to the table service: it is issued, then rejected by the environment, or
  answered by \<open>applyRequest\<close>. The four wrappers of the source turn the callback's
  \<^verbatim>\<open>error\<close> into a rejection.
\<close>

definition tableRequest :: "Env \<Rightarrow> TableRequest \<Rightarrow> unit Async" where
  "tableRequest env req =
     (\<lambda>w. let w' = w\<lparr>trace := trace w @ [Ledger req]\<rparr>
          in case rejects env req of
               Some e \<Rightarrow> (Inl e, w')
             | None \<Rightarrow>
                 (case applyRequest req (tables w') of
                    Inl e \<Rightarrow> (Inl e, w')
                  | Inr ts \<Rightarrow> (Inr (), w'\<lparr>tables := ts\<rparr>)))"

definition createTableIfNotExists :: "Env \<Rightarrow> string \<Rightarrow> unit Async" where
  "createTableIfNotExists env tableName = tableRequest env (CreateTableIfNotExists tableName)"

definition insertOrReplaceEntity :: "Env \<Rightarrow> string \<Rightarrow> Entity \<Rightarrow> unit Async" where
  "insertOrReplaceEntity env tableName entry =
     tableRequest env (InsertOrReplaceEntity tableName entry)"

definition insertOrMergeEntity :: "Env \<Rightarrow> string \<Rightarrow> Entity \<Rightarrow> unit Async" where
  "insertOrMergeEntity env tableName entry =
     tableRequest env (InsertOrMergeEntity tableName entry)"

text \<open>
  The record the service returns for a row: the stored properties, then the Timestamp and
  the \<^verbatim>\<open>.metadata\<close> it keeps for the row.
\<close>

definition returned :: "Env \<Rightarrow> string \<Rightarrow> (string \<times> string) \<times> Entity \<Rightarrow> Entity" where
  "returned env tableName r =
     snd r @ [(''Timestamp'', EdmDateTime (fst (serviceProperties env tableName (fst r)))),
              (''.metadata'', Metadata (snd (serviceProperties env tableName (fst r))))]"

text \<open>\<^verbatim>\<open>result.entries\<close> of an answered query.\<close>

definition entriesOf :: "Env \<Rightarrow> string \<Rightarrow> TableQuery \<Rightarrow> Table \<Rightarrow> Entity list" where
  "entriesOf env tableName query t = map (returned env tableName) (matchingRows query t)"

definition queryEntities :: "Env \<Rightarrow> string \<Rightarrow> TableQuery \<Rightarrow> (Entity list) Async" where
  "queryEntities env tableName query =
     andThen (tableRequest env (QueryEntities tableName query))
       (\<lambda>_ w. (Inr (case map_of (tables w) tableName of
                      None \<Rightarrow> []
                    | Some t \<Rightarrow> entriesOf env tableName query t), w))"

definition statusEntry :: "string \<Rightarrow> string \<Rightarrow> Status \<Rightarrow> Entity" where
  "statusEntry i own status =
     [(''RowKey'', EdmString i), (''PartitionKey'', EdmString own),
      (''status'', EdmInt32 (ordinal status)), (''lastStatus'', EdmInt32 (ordinal status))]"

definition insertOrMergeStatus ::
  "Env \<Rightarrow> string \<Rightarrow> string \<Rightarrow> string \<Rightarrow> Status \<Rightarrow> unit Async" where
  "insertOrMergeStatus env tableName i own status =
     insertOrMergeEntity env tableName (statusEntry i own status)"

definition statusEntryWithoutLast :: "string \<Rightarrow> string \<Rightarrow> Status \<Rightarrow> Entity" where
  "statusEntryWithoutLast i own status =
     [(''RowKey'', EdmString i), (''PartitionKey'', EdmString own),
      (''status'', EdmInt32 (ordinal status))]"

definition insertOrMergeStatusWithoutLast ::
  "Env \<Rightarrow> string \<Rightarrow> string \<Rightarrow> string \<Rightarrow> Status \<Rightarrow> unit Async" where
  "insertOrMergeStatusWithoutLast env tableName i own status =
     insertOrMergeEntity env tableName (statusEntryWithoutLast i own status)"

section \<open>The orchestrator\<close>

text \<open>
  \<^verbatim>\<open>main\<close> of the function with the ledger. The destructuring defaults
  (\<^verbatim>\<open>branch = 'master'\<close>, \<^verbatim>\<open>version = upgrade.TypeScriptVersion.Latest\<close>) apply when the
  option is absent. The calls to \<^verbatim>\<open>context.log\<close> are left out: nothing reads the log.
  \<^verbatim>\<open>worker\<close>, which races \<^verbatim>\<open>main\<close> against a timer, and the HTTP trigger around it are
  not part of this model.
\<close>

definition branchOf :: "Options \<Rightarrow> string" where
  "branchOf options = (case branch_opt options of None \<Rightarrow> ''master'' | Some b \<Rightarrow> b)"

definition versionOf :: "Env \<Rightarrow> Options \<Rightarrow> int" where
  "versionOf env options = (case version_opt options of None \<Rightarrow> Latest env | Some v \<Rightarrow> v)"

definition tableName :: string where
  "tableName = ''upgradeProcess''"

text \<open>The entity written at the start of a run that has an id.\<close>

definition initialEntry :: "Env \<Rightarrow> Options \<Rightarrow> string \<Rightarrow> Entity" where
  "initialEntry env options i =
     [(''PartitionKey'', EdmString (owner options)),
      (''RowKey'', EdmString i),
      (''owner'', EdmString (owner options)),
      (''repo'', EdmString (repo options)),
      (''branch'', EdmString (branchOf options)),
      (''version'', EdmInt32 (versionOf env options)),
      (''status'', EdmInt32 (ordinal Auth)),
      (''lastStatus'', EdmInt32 (ordinal Auth))]"

text \<open>
  \<^verbatim>\<open>const sha = commits[0]?.commit.tree\<close> is \<^verbatim>\<open>undefined\<close> on an empty log, and
  \<^verbatim>\<open>sha.slice(0, 8)\<close> then throws a TypeError.
\<close>

definition branchNameOf :: "ReadCommitResult list \<Rightarrow> string Async" where
  "branchNameOf cs =
     (case cs of
        [] \<Rightarrow> reject TypeError
      | c # _ \<Rightarrow> resolve (''ts-upgrade-at-'' @ take 8 (tree (commit c))))"

text \<open>The body of the try block.\<close>

definition mainTry :: "Env \<Rightarrow> Options \<Rightarrow> string Async" where
  "mainTry env options =
     (let ident = id_opt options; own = owner options; branch = branchOf options;
          dir = tempPath env
      in
      andThen (perform env NewOctokit (Octokit (authToken options))) (\<lambda>_.
      andThen (ifTruthy ident (\<lambda>i. insertOrMergeStatus env tableName i own Fork)) (\<lambda>_.
      andThen (perform env CreateFork (Repos_createFork own (repo options))) (\<lambda>_.
      andThen (ifTruthy ident (\<lambda>i. insertOrMergeStatus env tableName i own Clone)) (\<lambda>_.
      andThen (perform env GitClone (Git_clone dir (clone_url (forkResult env)))) (\<lambda>_.
      andThen (ifTruthy ident (\<lambda>i. insertOrMergeStatus env tableName i own Branch)) (\<lambda>_.
      andThen (if branch \<noteq> [] then perform env GitCheckoutTarget (Git_checkout dir branch)
               else resolve ()) (\<lambda>_.
      andThen (perform env GitLog (Git_log dir branch)) (\<lambda>_.
      andThen (branchNameOf (commits env)) (\<lambda>branchName.
      andThen (perform env GitBranch (Git_branch dir branchName)) (\<lambda>_.
      andThen (ifTruthy ident (\<lambda>i. insertOrMergeStatus env tableName i own Checkout)) (\<lambda>_.
      andThen (perform env GitCheckoutWorking (Git_checkout dir branchName)) (\<lambda>_.
      andThen (ifTruthy ident (\<lambda>i. insertOrMergeStatus env tableName i own Upgrade)) (\<lambda>_.
      andThen (perform env UpgradeFromProject
                 (Upgrade_upgradeFromProject dir (versionOf env options))) (\<lambda>_.
      andThen (ifTruthy ident (\<lambda>i. insertOrMergeStatus env tableName i own Add)) (\<lambda>_.
      andThen (perform env GitAdd (Git_add dir ''.'')) (\<lambda>_.
      andThen (ifTruthy ident (\<lambda>i. insertOrMergeStatus env tableName i own Commit)) (\<lambda>_.
      andThen (perform env GitCommit
                 (Git_commit dir ''ts-upgrade-bot'' ''tsupgradebot@gmail.com''
                    ''Upgrade TypeScript syntax'')) (\<lambda>_.
      andThen (ifTruthy ident (\<lambda>i. insertOrMergeStatus env tableName i own Push)) (\<lambda>_.
      andThen (perform env GitPush
                 (Git_push dir ''origin'' branchName True (authToken options))) (\<lambda>_.
      andThen (ifTruthy ident (\<lambda>i. insertOrMergeStatus env tableName i own Star)) (\<lambda>_.
      andThen (perform env StarRepo
                 (Activity_starRepoForAuthenticatedUser own (repo options))) (\<lambda>_.
      andThen (ifTruthy ident (\<lambda>i. insertOrMergeStatus env tableName i own Pr)) (\<lambda>_.
      andThen (perform env PullsCreate
                 (Pulls_create own (repo options) ''Upgrade TypeScript syntax'' branch
                    (''ts-upgrade-bot:'' @ branchName))) (\<lambda>_.
      andThen (ifTruthy ident (\<lambda>i. insertOrMergeStatus env tableName i own Done)) (\<lambda>_.
      resolve (prResult env)))))))))))))))))))))))))))"

text \<open>The catch block: mark the row, then throw the caught value again.\<close>

definition mainCatch :: "Env \<Rightarrow> Options \<Rightarrow> exn \<Rightarrow> string Async" where
  "mainCatch env options e =
     andThen (ifTruthy (id_opt options)
                (\<lambda>i. insertOrMergeStatusWithoutLast env tableName i (owner options) Error))
       (\<lambda>_. reject e)"

text \<open>
  The statements before the try block: build the client of the table service and, with an
  id, create the table and the row.
\<close>

definition mainInit :: "Env \<Rightarrow> Options \<Rightarrow> unit Async" where
  "mainInit env options =
     andThen (createTableService env (Some (connectionString options))) (\<lambda>_.
     ifTruthy (id_opt options) (\<lambda>i.
       andThen (createTableIfNotExists env tableName) (\<lambda>_.
       insertOrReplaceEntity env tableName (initialEntry env options i))))"

definition main :: "Env \<Rightarrow> Options \<Rightarrow> string Async" where
  "main env options =
     andThen (mainInit env options)
       (\<lambda>_. tryCatch (mainTry env options) (mainCatch env options))"

section \<open>The orchestrator without a ledger\<close>

text \<open>
  \<^verbatim>\<open>main\<close> of \<^verbatim>\<open>doUpgrade/index.ts\<close>: the same steps without the ledger, without the
  star, and with the target version fixed. Of the options it reads the token, the owner, the
  repository and the branch.
\<close>

definition doUpgradeMain :: "Env \<Rightarrow> Options \<Rightarrow> string Async" where
  "doUpgradeMain env options =
     (let own = owner options; branch = branchOf options; dir = tempPath env
      in
      andThen (perform env NewOctokit (Octokit (authToken options))) (\<lambda>_.
      andThen (perform env CreateFork (Repos_createFork own (repo options))) (\<lambda>_.
      andThen (perform env GitClone (Git_clone dir (clone_url (forkResult env)))) (\<lambda>_.
      andThen (if branch \<noteq> [] then perform env GitCheckoutTarget (Git_checkout dir branch)
               else resolve ()) (\<lambda>_.
      andThen (perform env GitLog (Git_log dir branch)) (\<lambda>_.
      andThen (branchNameOf (commits env)) (\<lambda>branchName.
      andThen (perform env GitBranch (Git_branch dir branchName)) (\<lambda>_.
      andThen (perform env GitCheckoutWorking (Git_checkout dir branchName)) (\<lambda>_.
      andThen (perform env UpgradeFromProject (Upgrade_upgradeFromProject dir (v3_8 env))) (\<lambda>_.
      andThen (perform env GitAdd (Git_add dir ''.'')) (\<lambda>_.
      andThen (perform env GitCommit
                 (Git_commit dir ''ts-upgrade-bot'' ''tsupgradebot@gmail.com''
                    ''Upgrade TypeScript syntax'')) (\<lambda>_.
      andThen (perform env GitPush
                 (Git_push dir ''origin'' branchName True (authToken options))) (\<lambda>_.
      andThen (perform env PullsCreate
                 (Pulls_create own (repo options) ''Upgrade TypeScript syntax'' branch
                    (''ts-upgrade-bot:'' @ branchName))) (\<lambda>_.
      resolve (prResult env)))))))))))))))"

section \<open>The status query\<close>

text \<open>
  \<^verbatim>\<open>httpTrigger\<close> of the query function: the connection string and the table name come
  from the process environment, the id from the request body; the response body's
  \<^verbatim>\<open>data\<close> is the first entry, or \<^verbatim>\<open>undefined\<close> (\<open>None\<close>) when \<^verbatim>\<open>entries\<close> is empty.
  Nothing here creates the table or catches an error of the service.
\<close>

definition httpTrigger :: "Env \<Rightarrow> string \<Rightarrow> string \<Rightarrow> (Entity option) Async" where
  "httpTrigger env taskTableName i =
     andThen (createTableService env (AZURE_CONNECTION_STRING env)) (\<lambda>_.
     andThen (queryEntities env taskTableName (WhereStringEqual ''RowKey'' i))
       (\<lambda>entries. resolve (case entries of [] \<Rightarrow> None | e # _ \<Rightarrow> Some e)))"

text \<open>The row of a run in the ledger table.\<close>

definition row :: "World \<Rightarrow> string \<Rightarrow> string \<Rightarrow> Entity option" where
  "row w own i =
     (case map_of (tables w) tableName of None \<Rightarrow> None | Some t \<Rightarrow> map_of t (own, i))"

section \<open>The orchestrators as lists of steps\<close>

text \<open>
  For the proofs, the try block is written a second time, as a list of steps that are run
  one after the other until one rejects: a collaborator call, a status write (issued only
  with an id), or a throw of the runtime. \<open>mainTry_script\<close> below proves that running
  \<open>script\<close> is the try block of \<open>main\<close>.
\<close>

datatype Step = Act Site Call | Record Status | Raise exn

fun execStep :: "Env \<Rightarrow> Options \<Rightarrow> Step \<Rightarrow> unit Async" where
  "execStep env options (Act site c) = perform env site c"
| "execStep env options (Record status) =
     ifTruthy (id_opt options) (\<lambda>i. insertOrMergeStatus env tableName i (owner options) status)"
| "execStep env options (Raise e) = reject e"

fun runSteps :: "Env \<Rightarrow> Options \<Rightarrow> Step list \<Rightarrow> unit Async" where
  "runSteps env options [] = resolve ()"
| "runSteps env options (x # xs) = andThen (execStep env options x) (\<lambda>_. runSteps env options xs)"

definition workingSteps :: "Env \<Rightarrow> Options \<Rightarrow> string \<Rightarrow> Step list" where
  "workingSteps env options branchName =
     [Act GitBranch (Git_branch (tempPath env) branchName),
      Record Checkout,
      Act GitCheckoutWorking (Git_checkout (tempPath env) branchName),
      Record Upgrade,
      Act UpgradeFromProject (Upgrade_upgradeFromProject (tempPath env) (versionOf env options)),
      Record Add,
      Act GitAdd (Git_add (tempPath env) ''.''),
      Record Commit,
      Act GitCommit (Git_commit (tempPath env) ''ts-upgrade-bot'' ''tsupgradebot@gmail.com''
                       ''Upgrade TypeScript syntax''),
      Record Push,
      Act GitPush (Git_push (tempPath env) ''origin'' branchName True (authToken options)),
      Record Star,
      Act StarRepo (Activity_starRepoForAuthenticatedUser (owner options) (repo options)),
      Record Pr,
      Act PullsCreate (Pulls_create (owner options) (repo options) ''Upgrade TypeScript syntax''
                         (branchOf options) (''ts-upgrade-bot:'' @ branchName)),
      Record Done]"

definition script :: "Env \<Rightarrow> Options \<Rightarrow> Step list" where
  "script env options =
     [Act NewOctokit (Octokit (authToken options)),
      Record Fork,
      Act CreateFork (Repos_createFork (owner options) (repo options)),
      Record Clone,
      Act GitClone (Git_clone (tempPath env) (clone_url (forkResult env))),
      Record Branch]
     @ (if branchOf options \<noteq> []
        then [Act GitCheckoutTarget (Git_checkout (tempPath env) (branchOf options))] else [])
     @ [Act GitLog (Git_log (tempPath env) (branchOf options))]
     @ (case commits env of
          [] \<Rightarrow> [Raise TypeError]
        | c # _ \<Rightarrow> workingSteps env options (''ts-upgrade-at-'' @ take 8 (tree (commit c))))"

text \<open>The events a step adds to the trace when it is run.\<close>

fun eventsOf :: "Options \<Rightarrow> Step \<Rightarrow> Event list" where
  "eventsOf options (Act site c) = [Collab site c]"
| "eventsOf options (Record status) =
     (case id_opt options of
        None \<Rightarrow> []
      | Some i \<Rightarrow>
          if i = [] then []
          else [Ledger (InsertOrMergeEntity tableName (statusEntry i (owner options) status))])"
| "eventsOf options (Raise e) = []"

definition scriptEvents :: "Options \<Rightarrow> Step list \<Rightarrow> Event list" where
  "scriptEvents options steps = concat (map (eventsOf options) steps)"

text \<open>The steps of \<^verbatim>\<open>doUpgrade\<close>'s \<^verbatim>\<open>main\<close>.\<close>

definition doUpgradeScript :: "Env \<Rightarrow> Options \<Rightarrow> Step list" where
  "doUpgradeScript env options =
     [Act NewOctokit (Octokit (authToken options)),
      Act CreateFork (Repos_createFork (owner options) (repo options)),
      Act GitClone (Git_clone (tempPath env) (clone_url (forkResult env)))]
     @ (if branchOf options \<noteq> []
        then [Act GitCheckoutTarget (Git_checkout (tempPath env) (branchOf options))] else [])
     @ [Act GitLog (Git_log (tempPath env) (branchOf options))]
     @ (case commits env of
          [] \<Rightarrow> [Raise TypeError]
        | c # _ \<Rightarrow>
            [Act GitBranch (Git_branch (tempPath env)
                              (''ts-upgrade-at-'' @ take 8 (tree (commit c)))),
             Act GitCheckoutWorking (Git_checkout (tempPath env)
                                       (''ts-upgrade-at-'' @ take 8 (tree (commit c)))),
             Act UpgradeFromProject (Upgrade_upgradeFromProject (tempPath env) (v3_8 env)),
             Act GitAdd (Git_add (tempPath env) ''.''),
             Act GitCommit (Git_commit (tempPath env) ''ts-upgrade-bot'' ''tsupgradebot@gmail.com''
                              ''Upgrade TypeScript syntax''),
             Act GitPush (Git_push (tempPath env) ''origin''
                            (''ts-upgrade-at-'' @ take 8 (tree (commit c))) True
                            (authToken options)),
             Act PullsCreate (Pulls_create (owner options) (repo options)
                                ''Upgrade TypeScript syntax'' (branchOf options)
                                (''ts-upgrade-bot:'' @ ''ts-upgrade-at-''
                                 @ take 8 (tree (commit c))))])"

text \<open>An entity that carries the two keys of its row.\<close>

definition keyed :: "string \<Rightarrow> string \<Rightarrow> Entity \<Rightarrow> bool" where
  "keyed own i e =
     (map_of e ''PartitionKey'' = Some (EdmString own) \<and> map_of e ''RowKey'' = Some (EdmString i))"

text \<open>The status a list of steps writes last (\<open>cur\<close> when it writes none).\<close>

fun lastRecorded :: "Status \<Rightarrow> Step list \<Rightarrow> Status" where
  "lastRecorded cur [] = cur"
| "lastRecorded cur (Record status # xs) = lastRecorded status xs"
| "lastRecorded cur (x # xs) = lastRecorded cur xs"

text \<open>The status value written before the call at a site: the step the call belongs to.\<close>

fun stage :: "Site \<Rightarrow> Status" where
  "stage NewOctokit = Auth"
| "stage CreateFork = Fork"
| "stage GitClone = Clone"
| "stage GitCheckoutTarget = Branch"
| "stage GitLog = Branch"
| "stage GitBranch = Branch"
| "stage GitCheckoutWorking = Checkout"
| "stage UpgradeFromProject = Upgrade"
| "stage GitAdd = Add"
| "stage GitCommit = Commit"
| "stage GitPush = Push"
| "stage StarRepo = Star"
| "stage PullsCreate = Pr"

text \<open>Every call of a list of steps comes after the write of its own stage.\<close>

fun stagesOk :: "Status \<Rightarrow> Step list \<Rightarrow> bool" where
  "stagesOk cur [] = True"
| "stagesOk cur (Act site c # xs) = (stage site = cur \<and> stagesOk cur xs)"
| "stagesOk cur (Record status # xs) = stagesOk status xs"
| "stagesOk cur (Raise e # xs) = stagesOk cur xs"

text \<open>The events that are requests to the table service.\<close>

definition isLedger :: "Event \<Rightarrow> bool" where
  "isLedger ev = (case ev of Ledger r \<Rightarrow> True | Collab site c \<Rightarrow> False)"

text \<open>A property of the row of a run (\<open>None\<close> when the row or the property is absent).\<close>

definition rowProp :: "World \<Rightarrow> string \<Rightarrow> string \<Rightarrow> string \<Rightarrow> Edm option" where
  "rowProp w own i p = (case row w own i of None \<Rightarrow> None | Some r \<Rightarrow> map_of r p)"

text \<open>The request the catch block sends.\<close>

definition errorRequest :: "Options \<Rightarrow> string \<Rightarrow> TableRequest" where
  "errorRequest options i =
     InsertOrMergeEntity tableName (statusEntryWithoutLast i (owner options) Error)"

text \<open>
  The ledger write that carries the status of a site's step: the initial record for the
  construction of the client, the merge of the step's value for every other call.
\<close>

definition announce :: "Env \<Rightarrow> Options \<Rightarrow> string \<Rightarrow> Site \<Rightarrow> Event" where
  "announce env options i site =
     (if site = NewOctokit
      then Ledger (InsertOrReplaceEntity tableName (initialEntry env options i))
      else Ledger (InsertOrMergeEntity tableName (statusEntry i (owner options) (stage site))))"

text \<open>
  \<open>announced need seen es\<close>: every collaborator call in \<open>es\<close> comes after the event its
  site needs, in \<open>seen\<close> or earlier in \<open>es\<close>.
\<close>

fun announced :: "(Site \<Rightarrow> Event) \<Rightarrow> Event list \<Rightarrow> Event list \<Rightarrow> bool" where
  "announced need seen [] = True"
| "announced need seen (Collab site c # es) =
     (need site \<in> set seen \<and> announced need (Collab site c # seen) es)"
| "announced need seen (Ledger r # es) = announced need (Ledger r # seen) es"

text \<open>The requests that set the status property to a given value.\<close>

fun setsStatus :: "Status \<Rightarrow> Event \<Rightarrow> bool" where
  "setsStatus status (Ledger (InsertOrMergeEntity t entry)) =
     (map_of entry ''status'' = Some (EdmInt32 (ordinal status)))"
| "setsStatus status (Ledger (InsertOrReplaceEntity t entry)) =
     (map_of entry ''status'' = Some (EdmInt32 (ordinal status)))"
| "setsStatus status ev = False"

text \<open>The lastStatus value a ledger write carries, if it carries one.\<close>

fun lastStatusWritten :: "Event \<Rightarrow> int option" where
  "lastStatusWritten (Ledger (InsertOrReplaceEntity t entry)) =
     (case map_of entry ''lastStatus'' of Some (EdmInt32 n) \<Rightarrow> Some n | _ \<Rightarrow> None)"
| "lastStatusWritten (Ledger (InsertOrMergeEntity t entry)) =
     (case map_of entry ''lastStatus'' of Some (EdmInt32 n) \<Rightarrow> Some n | _ \<Rightarrow> None)"
| "lastStatusWritten ev = None"


section \<open>Example runs\<close>

text \<open>
  The scenario of the specification: owner acme, repository widgets, branch main, run-id
  r1, on a table service that holds nothing yet. In \<open>calmEnv\<close> no collaborator throws and
  the service accepts every request; in \<open>upgradeThrowsEnv\<close> the transformation throws.
\<close>

definition acmeOptions :: Options where
  "acmeOptions =
     \<lparr>authToken = ''token'', connectionString = ''UseDevelopmentStorage=true'',
      owner = ''acme'', repo = ''widgets'', id_opt = Some ''r1'', branch_opt = Some ''main'',
      version_opt = None\<rparr>"

definition calmEnv :: Env where
  "calmEnv =
     \<lparr>createTableServiceThrows = (\<lambda>conn. None),
      AZURE_CONNECTION_STRING = Some ''UseDevelopmentStorage=true'',
      serviceProperties = (\<lambda>name k. (''2020-05-01T10:00:00Z'', ''W/1'')),
      throws = (\<lambda>site. None), rejects = (\<lambda>req. None), tempPath = ''/tmp/0b5e'',
      forkResult = \<lparr>html_url = ''https://github.com/ts-upgrade-bot/widgets'',
                    clone_url = ''https://github.com/ts-upgrade-bot/widgets.git''\<rparr>,
      commits = [\<lparr>oid = ''9fceb02d0ae598e95dc970b74767f19372d61af8'',
                  commit = \<lparr>message = ''init'',
                             tree = ''4b825dc642cb6eb9a060e54bf8d69288fbee4904''\<rparr>\<rparr>],
      prResult = ''https://api.github.com/repos/acme/widgets/pulls/1'', Latest = 7, v3_8 = 4\<rparr>"

definition upgradeThrowsEnv :: Env where
  "upgradeThrowsEnv =
     calmEnv\<lparr>throws := (\<lambda>site. if site = UpgradeFromProject then Some (Thrown ''upgrade failed'')
                                else None)\<rparr>"

definition freshWorld :: World where
  "freshWorld = \<lparr>tables = [], trace = []\<rparr>"

text \<open>The same options without an id; an empty commit log; a second submission of r1.\<close>

definition anonymousOptions :: Options where
  "anonymousOptions = acmeOptions\<lparr>id_opt := None\<rparr>"

definition emptyLogEnv :: Env where
  "emptyLogEnv = calmEnv\<lparr>commits := []\<rparr>"

definition gadgetsOptions :: Options where
  "gadgetsOptions =
     \<lparr>authToken = ''token'', connectionString = ''UseDevelopmentStorage=true'',
      owner = ''acme'', repo = ''gadgets'', id_opt = Some ''r1'', branch_opt = None,
      version_opt = Some 3\<rparr>"

text \<open>
  The run-id r1 submitted again under another owner; and a ledger in which the row of
  (acme, r1) carries a property that no run writes, beside a row of (globex, r1).
\<close>

definition globexOptions :: Options where
  "globexOptions =
     \<lparr>authToken = ''token'', connectionString = ''UseDevelopmentStorage=true'',
      owner = ''globex'', repo = ''widgets'', id_opt = Some ''r1'', branch_opt = Some ''main'',
      version_opt = None\<rparr>"

definition annotatedWorld :: World where
  "annotatedWorld =
     \<lparr>tables =
        [(''upgradeProcess'',
          [((''globex'', ''r1''),
            [(''PartitionKey'', EdmString ''globex''), (''RowKey'', EdmString ''r1''),
             (''owner'', EdmString ''globex''), (''repo'', EdmString ''widgets''),
             (''branch'', EdmString ''main''), (''version'', EdmInt32 7),
             (''status'', EdmInt32 5), (''lastStatus'', EdmInt32 5)]),
           ((''acme'', ''r1''),
            [(''PartitionKey'', EdmString ''acme''), (''RowKey'', EdmString ''r1''),
             (''owner'', EdmString ''acme''), (''repo'', EdmString ''widgets''),
             (''branch'', EdmString ''main''), (''version'', EdmInt32 7),
             (''status'', EdmInt32 11), (''lastStatus'', EdmInt32 11),
             (''note'', EdmString ''checked by hand'')])])],
      trace = []\<rparr>"

section \<open>Promises: the laws used\<close>

lemma andThen_resolve: "andThen (resolve x) f = f x"
  by (simp add: andThen_def resolve_def)

lemma andThen_reject: "andThen (reject e) f = reject e"
  by (simp add: andThen_def reject_def)

lemma andThen_assoc: "andThen (andThen m f) g = andThen m (\<lambda>x. andThen (f x) g)"
  by (auto simp: andThen_def fun_eq_iff split: prod.splits sum.splits)

section \<open>The try block is its list of steps\<close>

lemma mainTry_script:
  "mainTry env options =
     andThen (runSteps env options (script env options)) (\<lambda>_. resolve (prResult env))"
proof (cases "commits env")
  case Nil
  then show ?thesis
    by (simp add: mainTry_def script_def Let_def branchNameOf_def andThen_assoc andThen_resolve
        andThen_reject)
next
  case (Cons c cs)
  then show ?thesis
    by (simp add: mainTry_def script_def workingSteps_def Let_def branchNameOf_def andThen_assoc
        andThen_resolve)
qed

section \<open>Runs of a list of steps\<close>

lemma tableRequest_trace: "trace (snd (tableRequest env req w)) = trace w @ [Ledger req]"
  by (simp add: tableRequest_def Let_def split: option.split sum.split)

lemma perform_trace: "trace (snd (perform env site c w)) = trace w @ [Collab site c]"
  by (simp add: perform_def Let_def split: option.split)

lemma perform_tables: "tables (snd (perform env site c w)) = tables w"
  by (simp add: perform_def Let_def split: option.split)

lemma execStep_trace: "trace (snd (execStep env options x w)) = trace w @ eventsOf options x"
proof (cases x)
  case (Act site c)
  then show ?thesis by (simp add: perform_trace)
next
  case (Record status)
  then show ?thesis
    by (cases "id_opt options")
       (simp_all add: resolve_def insertOrMergeStatus_def insertOrMergeEntity_def tableRequest_trace)
next
  case (Raise e)
  then show ?thesis by (simp add: reject_def)
qed

lemma andThen_Inl: "m w = (Inl e, w') \<Longrightarrow> andThen m f w = (Inl e, w')"
  by (simp add: andThen_def)

lemma andThen_Inr: "m w = (Inr x, w') \<Longrightarrow> andThen m f w = f x w'"
  by (simp add: andThen_def)

lemma runSteps_append:
  "runSteps env options (xs @ ys) = andThen (runSteps env options xs) (\<lambda>_. runSteps env options ys)"
  by (induction xs) (simp_all add: andThen_resolve andThen_assoc)

lemma runSteps_trace:
  "\<exists>new rest. trace (snd (runSteps env options steps w)) = trace w @ new
     \<and> scriptEvents options steps = new @ rest
     \<and> (\<forall>u. fst (runSteps env options steps w) = Inr u \<longrightarrow> rest = [])"
proof (induction steps arbitrary: w)
  case Nil
  then show ?case by (simp add: resolve_def scriptEvents_def)
next
  case (Cons x xs)
  obtain r w1 where ex: "execStep env options x w = (r, w1)" by (cases "execStep env options x w")
  have tr1: "trace w1 = trace w @ eventsOf options x"
    using execStep_trace [of env options x w] ex by simp
  show ?case
  proof (cases r)
    case (Inl e)
    then have "runSteps env options (x # xs) w = (Inl e, w1)"
      using ex by (simp add: andThen_Inl)
    then show ?thesis using tr1 by (simp add: scriptEvents_def)
  next
    case (Inr u)
    then have run: "runSteps env options (x # xs) w = runSteps env options xs w1"
      using ex by (simp add: andThen_Inr)
    from Cons.IH [of w1] obtain new rest where
      "trace (snd (runSteps env options xs w1)) = trace w1 @ new"
      "scriptEvents options xs = new @ rest"
      "\<forall>u. fst (runSteps env options xs w1) = Inr u \<longrightarrow> rest = []"
      by blast
    then show ?thesis using run tr1
      by (intro exI [of _ "eventsOf options x @ new"] exI [of _ rest]) (simp add: scriptEvents_def)
  qed
qed

lemma runSteps_Raise:
  "Raise e \<in> set steps \<Longrightarrow> fst (runSteps env options steps w) \<noteq> Inr u"
proof (induction steps arbitrary: w)
  case Nil
  then show ?case by simp
next
  case (Cons x xs)
  obtain r w1 where ex: "execStep env options x w = (r, w1)" by (cases "execStep env options x w")
  show ?case
  proof (cases r)
    case (Inl e')
    then show ?thesis using ex by (simp add: andThen_Inl)
  next
    case (Inr v)
    then have x: "x \<noteq> Raise e" using ex by (auto simp: reject_def)
    then show ?thesis using Cons Inr ex by (simp add: andThen_Inr)
  qed
qed

section \<open>The orchestrator without a ledger is its list of steps\<close>

lemma doUpgradeMain_script:
  "doUpgradeMain env options =
     andThen (runSteps env options (doUpgradeScript env options)) (\<lambda>_. resolve (prResult env))"
proof (cases "commits env")
  case Nil
  then show ?thesis
    by (simp add: doUpgradeMain_def doUpgradeScript_def Let_def branchNameOf_def andThen_assoc
        andThen_resolve andThen_reject)
next
  case (Cons c cs)
  then show ?thesis
    by (simp add: doUpgradeMain_def doUpgradeScript_def Let_def branchNameOf_def andThen_assoc
        andThen_resolve)
qed

lemma doUpgradeMain_snd:
  "snd (doUpgradeMain env options w) = snd (runSteps env options (doUpgradeScript env options) w)"
  by (cases "runSteps env options (doUpgradeScript env options) w" rule: prod.exhaust [case_names Pair])
     (auto simp: doUpgradeMain_script andThen_def resolve_def split: sum.splits)

lemma doUpgradeMain_runSteps_Inl:
  "runSteps env options (doUpgradeScript env options) w = (Inl e, w1) \<Longrightarrow>
   doUpgradeMain env options w = (Inl e, w1)"
  by (simp add: doUpgradeMain_script andThen_Inl)

lemma doUpgradeMain_collab_in_script:
  assumes fresh: "trace w = []"
    and issued: "Collab site c \<in> set (trace (snd (doUpgradeMain env options w)))"
  shows "Collab site c \<in> set (scriptEvents options (doUpgradeScript env options))"
proof -
  from runSteps_trace [of env options "doUpgradeScript env options" w] obtain new rest where
    "trace (snd (runSteps env options (doUpgradeScript env options) w)) = trace w @ new"
    "scriptEvents options (doUpgradeScript env options) = new @ rest" by blast
  then show ?thesis using issued fresh by (simp add: doUpgradeMain_snd)
qed

lemma doUpgradeScript_GitBranch:
  assumes "Collab GitBranch call \<in> set (scriptEvents options (doUpgradeScript env options))"
  shows "commits env \<noteq> []
     \<and> call = Git_branch (tempPath env) (''ts-upgrade-at-'' @ take 8 (tree (commit (hd (commits env)))))"
proof (cases "commits env")
  case Nil
  then show ?thesis using assms
    by (auto simp: doUpgradeScript_def scriptEvents_def split: if_splits)
next
  case (Cons c cs)
  then show ?thesis using assms
    by (auto simp: doUpgradeScript_def scriptEvents_def split: if_splits)
qed

section \<open>The row of a run\<close>

lemma entityKey_statusEntry: "entityKey (statusEntry i own status) = Some (own, i)"
  by (simp add: entityKey_def statusEntry_def)

lemma entityKey_statusEntryWithoutLast: "entityKey (statusEntryWithoutLast i own status) = Some (own, i)"
  by (simp add: entityKey_def statusEntryWithoutLast_def)

lemma entityKey_initialEntry: "entityKey (initialEntry env options i) = Some (owner options, i)"
  by (simp add: entityKey_def initialEntry_def)

text \<open>An accepted merge into an existing row.\<close>

lemma merge_accepted:
  assumes key: "entityKey entry = Some (own, i)"
    and res: "tableRequest env (InsertOrMergeEntity tableName entry) w = (Inr u, w1)"
    and old: "row w own i = Some old"
  shows "row w1 own i = Some (AList.merge old entry)"
  using res old key
  by (auto simp: tableRequest_def Let_def row_def update_conv'
      split: option.splits sum.splits)

text \<open>A merge that is not accepted leaves the tables as they were.\<close>

lemma merge_refused:
  "tableRequest env req w = (Inl e, w1) \<Longrightarrow> tables w1 = tables w"
  by (auto simp: tableRequest_def Let_def split: option.splits sum.splits)

lemma merge_succeeds:
  assumes key: "entityKey entry = Some (own, i)"
    and acc: "rejects env (InsertOrMergeEntity tableName entry) = None"
    and old: "row w own i = Some old"
  shows "fst (tableRequest env (InsertOrMergeEntity tableName entry) w) = Inr ()"
  using acc old key
  by (auto simp: tableRequest_def Let_def row_def split: option.splits sum.splits)

lemma row_tables_cong: "tables w1 = tables w \<Longrightarrow> row w1 own i = row w own i"
  by (simp add: row_def)

lemma map_of_merge_statusEntry:
  "map_of (AList.merge old (statusEntry i own status)) =
     (map_of old)(''lastStatus'' \<mapsto> EdmInt32 (ordinal status), ''status'' \<mapsto> EdmInt32 (ordinal status),
        ''PartitionKey'' \<mapsto> EdmString own, ''RowKey'' \<mapsto> EdmString i)"
  by (simp add: update_conv' statusEntry_def)

lemma map_of_merge_statusEntryWithoutLast:
  "map_of (AList.merge old (statusEntryWithoutLast i own status)) =
     (map_of old)(''status'' \<mapsto> EdmInt32 (ordinal status),
        ''PartitionKey'' \<mapsto> EdmString own, ''RowKey'' \<mapsto> EdmString i)"
  by (simp add: update_conv' statusEntryWithoutLast_def)

lemma execStep_Record_row:
  assumes ident: "id_opt options = Some i" "i \<noteq> []"
    and res: "execStep env options (Record status) w = (Inr u, w1)"
    and old: "row w (owner options) i = Some old"
  shows "row w1 (owner options) i = Some (AList.merge old (statusEntry i (owner options) status))"
  using ident res merge_accepted [OF entityKey_statusEntry _ old, of env status u w1]
  by (simp add: insertOrMergeStatus_def insertOrMergeEntity_def)

lemma execStep_tables_Inl: "execStep env options x w = (Inl e, w1) \<Longrightarrow> tables w1 = tables w"
proof (cases x)
  case (Act site c)
  assume "execStep env options x w = (Inl e, w1)"
  then show ?thesis using Act perform_tables [of env site c w] by simp
next
  case (Record status)
  assume "execStep env options x w = (Inl e, w1)"
  then show ?thesis using Record
    by (cases "id_opt options")
       (auto simp: resolve_def insertOrMergeStatus_def insertOrMergeEntity_def
          dest: merge_refused split: if_splits)
next
  case (Raise e')
  assume "execStep env options x w = (Inl e, w1)"
  then show ?thesis using Raise by (simp add: reject_def)
qed

lemma execStep_Act_tables: "tables (snd (execStep env options (Act site c) w)) = tables w"
  by (simp add: perform_tables)

text \<open>
  After a prefix of steps that all returned, the row holds the last recorded status in both
  status properties, and every other property is as it was.
\<close>

lemma runSteps_row:
  assumes ident: "id_opt options = Some i" "i \<noteq> []"
  shows "runSteps env options pre w = (Inr u, w1) \<Longrightarrow>
         row w (owner options) i = Some old \<Longrightarrow> keyed (owner options) i old \<Longrightarrow>
         map_of old ''status'' = Some (EdmInt32 (ordinal cur)) \<Longrightarrow>
         map_of old ''lastStatus'' = Some (EdmInt32 (ordinal cur)) \<Longrightarrow>
         \<exists>old1. row w1 (owner options) i = Some old1 \<and> keyed (owner options) i old1
           \<and> map_of old1 ''status'' = Some (EdmInt32 (ordinal (lastRecorded cur pre)))
           \<and> map_of old1 ''lastStatus'' = Some (EdmInt32 (ordinal (lastRecorded cur pre)))
           \<and> (\<forall>p. p \<noteq> ''status'' \<and> p \<noteq> ''lastStatus'' \<longrightarrow> map_of old1 p = map_of old p)"
proof (induction pre arbitrary: w old cur)
  case Nil
  then show ?case by (simp add: resolve_def)
next
  case (Cons x xs)
  obtain r w2 where ex: "execStep env options x w = (r, w2)" by (cases "execStep env options x w")
  show ?case
  proof (cases r)
    case (Inl e)
    then show ?thesis using Cons.prems(1) ex by (simp add: andThen_Inl)
  next
    case (Inr v)
    then have run: "runSteps env options xs w2 = (Inr u, w1)"
      using Cons.prems(1) ex by (simp add: andThen_Inr)
    show ?thesis
    proof (cases x)
      case (Act site c)
      then have "tables w2 = tables w" using ex execStep_Act_tables [of env options site c w] by simp
      then have "row w2 (owner options) i = Some old" using Cons.prems(2) by (simp add: row_def)
      from Cons.IH [OF run this Cons.prems(3,4,5)] show ?thesis using Act by simp
    next
      case (Record status)
      let ?new = "AList.merge old (statusEntry i (owner options) status)"
      have r2: "row w2 (owner options) i = Some ?new"
        using execStep_Record_row [OF ident _ Cons.prems(2)] ex Inr Record by simp
      have k2: "keyed (owner options) i ?new"
        by (simp add: keyed_def map_of_merge_statusEntry)
      have s2: "map_of ?new ''status'' = Some (EdmInt32 (ordinal status))"
        "map_of ?new ''lastStatus'' = Some (EdmInt32 (ordinal status))"
        by (simp_all add: map_of_merge_statusEntry)
      have others: "\<forall>p. p \<noteq> ''status'' \<and> p \<noteq> ''lastStatus'' \<longrightarrow> map_of ?new p = map_of old p"
        using Cons.prems(3) by (auto simp: keyed_def map_of_merge_statusEntry)
      from Cons.IH [OF run r2 k2 s2] others show ?thesis using Record by auto
    next
      case (Raise e)
      then show ?thesis using ex Inr by (simp add: reject_def)
    qed
  qed
qed

text \<open>Whatever a step does, it leaves an existing, keyed row existing and keyed.\<close>

lemma execStep_row_inv:
  assumes ident: "id_opt options = Some i" "i \<noteq> []"
    and old: "row w (owner options) i = Some old" "keyed (owner options) i old"
  shows "\<exists>old1. row (snd (execStep env options x w)) (owner options) i = Some old1
           \<and> keyed (owner options) i old1"
proof -
  obtain r w1 where ex: "execStep env options x w = (r, w1)" by (cases "execStep env options x w")
  show ?thesis
  proof (cases r)
    case (Inl e)
    then have "tables w1 = tables w" using ex execStep_tables_Inl by blast
    then show ?thesis using old ex by (simp add: row_def)
  next
    case (Inr u)
    show ?thesis
    proof (cases x)
      case (Act site c)
      then show ?thesis using old perform_tables [of env site c w] by (simp add: row_def)
    next
      case (Record status)
      then have "row w1 (owner options) i = Some (AList.merge old (statusEntry i (owner options) status))"
        using execStep_Record_row [OF ident _ old(1)] ex Inr by simp
      then show ?thesis using ex by (simp add: keyed_def map_of_merge_statusEntry)
    next
      case (Raise e)
      then show ?thesis using old by (simp add: reject_def)
    qed
  qed
qed

lemma runSteps_row_inv:
  assumes ident: "id_opt options = Some i" "i \<noteq> []"
  shows "row w (owner options) i = Some old \<Longrightarrow> keyed (owner options) i old \<Longrightarrow>
         \<exists>old1. row (snd (runSteps env options steps w)) (owner options) i = Some old1
           \<and> keyed (owner options) i old1"
proof (induction steps arbitrary: w old)
  case Nil
  then show ?case by (simp add: resolve_def)
next
  case (Cons x xs)
  obtain r w1 where ex: "execStep env options x w = (r, w1)" by (cases "execStep env options x w")
  from execStep_row_inv [OF ident Cons.prems, of env x] ex
  obtain old1 where o1: "row w1 (owner options) i = Some old1" "keyed (owner options) i old1"
    by auto
  show ?case
  proof (cases r)
    case (Inl e)
    then show ?thesis using ex o1 by (simp add: andThen_Inl)
  next
    case (Inr u)
    then show ?thesis using ex Cons.IH [OF o1] by (simp add: andThen_Inr)
  qed
qed

lemma stagesOk_split:
  "stagesOk cur (pre @ Act site c # post) \<Longrightarrow> lastRecorded cur pre = stage site"
proof (induction pre arbitrary: cur)
  case Nil
  then show ?case by simp
next
  case (Cons x xs)
  then show ?case by (cases x) simp_all
qed

lemma script_stagesOk: "stagesOk Auth (script env options)"
  by (cases "commits env") (simp_all add: script_def workingSteps_def)

section \<open>The three parts of main\<close>

lemma mainInit_thrown:
  "createTableServiceThrows env (Some (connectionString options)) = Some e \<Longrightarrow>
   mainInit env options w = (Inl e, w)"
  by (simp add: mainInit_def createTableService_def andThen_def)

lemma mainInit_built:
  "createTableServiceThrows env (Some (connectionString options)) = None \<Longrightarrow>
   mainInit env options w =
     ifTruthy (id_opt options) (\<lambda>i.
       andThen (createTableIfNotExists env tableName) (\<lambda>_.
       insertOrReplaceEntity env tableName (initialEntry env options i))) w"
  by (simp add: mainInit_def createTableService_def andThen_def)

lemma mainInit_Inr_built:
  "mainInit env options w = (Inr u, w1) \<Longrightarrow>
   createTableServiceThrows env (Some (connectionString options)) = None"
  by (cases "createTableServiceThrows env (Some (connectionString options))")
     (simp_all add: mainInit_thrown)

lemma mainInit_Inr:
  assumes ident: "id_opt options = Some i" "i \<noteq> []"
    and res: "mainInit env options w = (Inr u, w1)"
  shows "row w1 (owner options) i = Some (initialEntry env options i)
         \<and> trace w1 = trace w @ [Ledger (CreateTableIfNotExists tableName),
              Ledger (InsertOrReplaceEntity tableName (initialEntry env options i))]"
  using res ident
  by (auto simp: mainInit_built [OF mainInit_Inr_built [OF res]] createTableIfNotExists_def
      insertOrReplaceEntity_def andThen_def
      tableRequest_def Let_def row_def entityKey_initialEntry update_conv'
      split: option.splits sum.splits)

lemma mainInit_trace:
  "\<exists>new. trace (snd (mainInit env options w)) = trace w @ new \<and> (\<forall>ev\<in>set new. isLedger ev)"
proof (cases "createTableServiceThrows env (Some (connectionString options))")
  case (Some e)
  then show ?thesis by (simp add: mainInit_thrown)
next
  case None
  note built = mainInit_built [OF None]
  show ?thesis
  proof (cases "id_opt options = None \<or> id_opt options = Some []")
    case True
    then show ?thesis by (auto simp: built resolve_def)
  next
    case False
    then obtain i where ident: "id_opt options = Some i" "i \<noteq> []" by auto
    obtain r w1 where c: "createTableIfNotExists env tableName w = (r, w1)"
      by (cases "createTableIfNotExists env tableName w")
    have t1: "trace w1 = trace w @ [Ledger (CreateTableIfNotExists tableName)]"
      using c tableRequest_trace [of env "CreateTableIfNotExists tableName" w]
      by (simp add: createTableIfNotExists_def)
    show ?thesis
    proof (cases r)
      case (Inl e)
      then show ?thesis using ident c t1 by (simp add: built andThen_Inl isLedger_def)
    next
      case (Inr u)
      then show ?thesis using ident c t1
          tableRequest_trace [of env "InsertOrReplaceEntity tableName (initialEntry env options i)" w1]
        by (simp add: built andThen_Inr isLedger_def insertOrReplaceEntity_def)
    qed
  qed
qed

lemma main_init_Inl: "mainInit env options w = (Inl e, w1) \<Longrightarrow> main env options w = (Inl e, w1)"
  by (simp add: main_def andThen_Inl)

lemma main_try_Inr:
  "mainInit env options w = (Inr u, w1) \<Longrightarrow> mainTry env options w1 = (Inr url, w2) \<Longrightarrow>
   main env options w = (Inr url, w2)"
  by (simp add: main_def andThen_Inr tryCatch_def)

lemma main_try_Inl:
  "mainInit env options w = (Inr u, w1) \<Longrightarrow> mainTry env options w1 = (Inl e, w2) \<Longrightarrow>
   main env options w = mainCatch env options e w2"
  by (simp add: main_def andThen_Inr tryCatch_def)

lemma mainTry_runSteps_Inl:
  "runSteps env options (script env options) w = (Inl e, w1) \<Longrightarrow> mainTry env options w = (Inl e, w1)"
  by (simp add: mainTry_script andThen_Inl)

lemma mainTry_runSteps_Inr:
  "runSteps env options (script env options) w = (Inr u, w1) \<Longrightarrow>
   mainTry env options w = (Inr (prResult env), w1)"
  by (simp add: mainTry_script andThen_Inr resolve_def)

lemma mainTry_snd: "snd (mainTry env options w) = snd (runSteps env options (script env options) w)"
  by (cases "runSteps env options (script env options) w" rule: prod.exhaust [case_names Pair])
     (auto simp: mainTry_script andThen_def resolve_def split: sum.splits)

text \<open>The catch block with an id, on an existing row, when the service accepts the write.\<close>

lemma mainCatch_accepted:
  assumes ident: "id_opt options = Some i" "i \<noteq> []"
    and old: "row w (owner options) i = Some old"
    and acc: "rejects env (InsertOrMergeEntity tableName
                (statusEntryWithoutLast i (owner options) Error)) = None"
  shows "fst (mainCatch env options e w) = Inl e"
    and "row (snd (mainCatch env options e w)) (owner options) i =
           Some (AList.merge old (statusEntryWithoutLast i (owner options) Error))"
    and "trace (snd (mainCatch env options e w)) = trace w @
           [Ledger (InsertOrMergeEntity tableName (statusEntryWithoutLast i (owner options) Error))]"
proof -
  let ?req = "InsertOrMergeEntity tableName (statusEntryWithoutLast i (owner options) Error)"
  obtain r w1 where tr: "tableRequest env ?req w = (r, w1)" by (cases "tableRequest env ?req w")
  have "fst (tableRequest env ?req w) = Inr ()"
    using merge_succeeds [OF entityKey_statusEntryWithoutLast acc old] .
  then have r: "r = Inr ()" using tr by simp
  have row1: "row w1 (owner options) i =
      Some (AList.merge old (statusEntryWithoutLast i (owner options) Error))"
    using merge_accepted [OF entityKey_statusEntryWithoutLast _ old] tr r by simp
  have tr1: "trace w1 = trace w @ [Ledger ?req]"
    using tableRequest_trace [of env ?req w] tr by simp
  have mc: "mainCatch env options e w = (Inl e, w1)"
    using ident tr r
    by (simp add: mainCatch_def insertOrMergeStatusWithoutLast_def insertOrMergeEntity_def
        andThen_def reject_def)
  show "fst (mainCatch env options e w) = Inl e" using mc by simp
  show "row (snd (mainCatch env options e w)) (owner options) i =
           Some (AList.merge old (statusEntryWithoutLast i (owner options) Error))"
    using mc row1 by simp
  show "trace (snd (mainCatch env options e w)) = trace w @ [Ledger ?req]"
    using mc tr1 by simp
qed

lemma runSteps_issued_first:
  assumes "Collab site c \<in> set (trace (snd (runSteps env options steps w)))"
    and "Collab site c \<notin> set (trace w)"
  shows "\<exists>pre post w1. steps = pre @ Act site c # post \<and> Act site c \<notin> set pre
           \<and> runSteps env options pre w = (Inr (), w1)"
  using assms
proof (induction steps arbitrary: w)
  case Nil
  then show ?case by (simp add: resolve_def)
next
  case (Cons x xs)
  show ?case
  proof (cases "x = Act site c")
    case True
    then show ?thesis by (intro exI [of _ "[]"] exI [of _ xs] exI [of _ w]) (simp add: resolve_def)
  next
    case False
    obtain r w1 where ex: "execStep env options x w = (r, w1)" by (cases "execStep env options x w")
    have tr1: "trace w1 = trace w @ eventsOf options x"
      using execStep_trace [of env options x w] ex by simp
    have notin: "Collab site c \<notin> set (trace w1)"
      using Cons.prems(2) False tr1 by (cases x) (auto split: option.splits if_splits)
    show ?thesis
    proof (cases r)
      case (Inl e)
      then have "runSteps env options (x # xs) w = (Inl e, w1)" using ex by (simp add: andThen_Inl)
      then show ?thesis using Cons.prems(1) notin by simp
    next
      case (Inr u)
      then have run: "runSteps env options (x # xs) w = runSteps env options xs w1"
        using ex by (simp add: andThen_Inr)
      with Cons.prems(1) have "Collab site c \<in> set (trace (snd (runSteps env options xs w1)))"
        by simp
      from Cons.IH [OF this notin] obtain pre post w2 where
        "xs = pre @ Act site c # post" "Act site c \<notin> set pre"
        "runSteps env options pre w1 = (Inr (), w2)" by blast
      then show ?thesis using ex Inr False
        by (intro exI [of _ "x # pre"] exI [of _ post] exI [of _ w2]) (simp add: andThen_Inr)
    qed
  qed
qed

lemma initialEntry_props:
  "keyed (owner options) i (initialEntry env options i)"
  "map_of (initialEntry env options i) ''status'' = Some (EdmInt32 (ordinal Auth))"
  "map_of (initialEntry env options i) ''lastStatus'' = Some (EdmInt32 (ordinal Auth))"
  by (simp_all add: keyed_def initialEntry_def)

text \<open>
  The state in which a collaborator call that throws leaves the try block: the block
  rejects with what the call threw, and the row holds the status recorded before the call.
\<close>

lemma mainTry_throw:
  assumes ident: "id_opt options = Some i" "i \<noteq> []"
    and init: "mainInit env options w = (Inr u, w1)"
    and fresh: "trace w = []"
    and issued: "Collab site c \<in> set (trace (snd (mainTry env options w1)))"
    and thr: "throws env site = Some e"
  shows "fst (mainTry env options w1) = Inl e
     \<and> (\<exists>old. row (snd (mainTry env options w1)) (owner options) i = Some old
           \<and> keyed (owner options) i old
           \<and> map_of old ''status'' = Some (EdmInt32 (ordinal (stage site)))
           \<and> map_of old ''lastStatus'' = Some (EdmInt32 (ordinal (stage site)))
           \<and> (\<forall>p. p \<noteq> ''status'' \<and> p \<noteq> ''lastStatus'' \<longrightarrow>
                 map_of old p = map_of (initialEntry env options i) p))"
proof -
  let ?own = "owner options"
  from mainInit_Inr [OF ident init] have
    row1: "row w1 ?own i = Some (initialEntry env options i)" and
    tr1: "trace w1 = trace w @ [Ledger (CreateTableIfNotExists tableName),
              Ledger (InsertOrReplaceEntity tableName (initialEntry env options i))]"
    by simp_all
  have notin: "Collab site c \<notin> set (trace w1)" using tr1 fresh by simp
  have "Collab site c \<in> set (trace (snd (runSteps env options (script env options) w1)))"
    using issued by (simp add: mainTry_snd)
  from runSteps_issued_first [OF this notin] obtain pre post wa where
    sc: "script env options = pre @ Act site c # post" and
    run: "runSteps env options pre w1 = (Inr (), wa)" by blast
  from runSteps_row [OF ident run row1 initialEntry_props] obtain old where
    old: "row wa ?own i = Some old" "keyed ?own i old"
      "map_of old ''status'' = Some (EdmInt32 (ordinal (lastRecorded Auth pre)))"
      "map_of old ''lastStatus'' = Some (EdmInt32 (ordinal (lastRecorded Auth pre)))"
      "\<forall>p. p \<noteq> ''status'' \<and> p \<noteq> ''lastStatus'' \<longrightarrow>
          map_of old p = map_of (initialEntry env options i) p"
    by blast
  have st: "lastRecorded Auth pre = stage site"
    using script_stagesOk [of env options] sc by (simp add: stagesOk_split)
  let ?wb = "wa\<lparr>trace := trace wa @ [Collab site c]\<rparr>"
  have "runSteps env options (script env options) w1 = (Inl e, ?wb)"
    using run thr by (simp add: sc runSteps_append andThen_def perform_def Let_def)
  then have tryr: "mainTry env options w1 = (Inl e, ?wb)" by (rule mainTry_runSteps_Inl)
  have "row ?wb ?own i = Some old" using old(1) by (simp add: row_def)
  then show ?thesis using tryr old st by auto
qed

lemma mainCatch_trace:
  "\<exists>new. trace (snd (mainCatch env options e w)) = trace w @ new \<and> (\<forall>ev\<in>set new. isLedger ev)"
proof (cases "id_opt options = None \<or> id_opt options = Some []")
  case True
  then show ?thesis by (auto simp: mainCatch_def resolve_def andThen_def reject_def)
next
  case False
  then obtain i where ident: "id_opt options = Some i" "i \<noteq> []" by auto
  let ?req = "InsertOrMergeEntity tableName (statusEntryWithoutLast i (owner options) Error)"
  obtain r w1 where tr: "tableRequest env ?req w = (r, w1)" by (cases "tableRequest env ?req w")
  have "trace w1 = trace w @ [Ledger ?req]" using tableRequest_trace [of env ?req w] tr by simp
  then show ?thesis using ident tr
    by (cases r) (simp_all add: mainCatch_def insertOrMergeStatusWithoutLast_def
        insertOrMergeEntity_def andThen_def reject_def isLedger_def)
qed

lemma mainCatch_fst: "\<exists>e'. fst (mainCatch env options e w) = Inl e'"
  by (cases "id_opt options")
     (auto simp: mainCatch_def andThen_def reject_def resolve_def split: sum.splits prod.splits)

text \<open>The trace of a run from a fresh trace: the events of the statements before the try
  block, then those of the try block, then those of the catch block.\<close>

lemma main_trace:
  "\<exists>ini new rest fin.
      trace (snd (main env options w)) = trace w @ ini @ new @ fin
    \<and> trace (snd (mainInit env options w)) = trace w @ ini
    \<and> (\<forall>ev\<in>set ini. isLedger ev) \<and> (\<forall>ev\<in>set fin. isLedger ev)
    \<and> scriptEvents options (script env options) = new @ rest
    \<and> (\<forall>url. fst (main env options w) = Inr url \<longrightarrow> rest = [] \<and> fin = []
          \<and> fst (mainInit env options w) = Inr ())"
proof -
  obtain r0 w1 where init: "mainInit env options w = (r0, w1)" by (cases "mainInit env options w")
  from mainInit_trace [of env options w] init obtain ini where
    ini: "trace w1 = trace w @ ini" "\<forall>ev\<in>set ini. isLedger ev" by auto
  show ?thesis
  proof (cases r0)
    case (Inl e)
    then have "main env options w = (Inl e, w1)" using init by (simp add: main_init_Inl)
    then show ?thesis using ini init
      by (intro exI [of _ ini] exI [of _ "[]"] exI [of _ "scriptEvents options (script env options)"])
         simp
  next
    case (Inr u)
    obtain r2 w2 where tryr: "mainTry env options w1 = (r2, w2)" by (cases "mainTry env options w1")
    from runSteps_trace [of env options "script env options" w1] obtain new rest where
      new: "trace (snd (runSteps env options (script env options) w1)) = trace w1 @ new"
        "scriptEvents options (script env options) = new @ rest"
        "\<forall>u. fst (runSteps env options (script env options) w1) = Inr u \<longrightarrow> rest = []"
      by blast
    have tr2: "trace w2 = trace w1 @ new" using new(1) tryr mainTry_snd [of env options w1] by simp
    show ?thesis
    proof (cases r2)
      case (Inl e)
      then have m: "main env options w = mainCatch env options e w2"
        using init Inr tryr by (simp add: main_try_Inl)
      from mainCatch_trace [of env options e w2] obtain fin where
        fin: "trace (snd (mainCatch env options e w2)) = trace w2 @ fin" "\<forall>ev\<in>set fin. isLedger ev"
        by blast
      from mainCatch_fst [of env options e w2] obtain e' where
        "fst (mainCatch env options e w2) = Inl e'" by blast
      then show ?thesis using m fin tr2 ini new(2) init
        by (intro exI [of _ ini] exI [of _ new] exI [of _ rest] exI [of _ fin]) simp
    next
      case r2: (Inr url)
      then have m: "main env options w = (Inr url, w2)"
        using init Inr tryr by (simp add: main_try_Inr)
      have "fst (runSteps env options (script env options) w1) = Inr ()"
        using tryr r2
        by (cases "runSteps env options (script env options) w1")
           (auto simp: mainTry_script andThen_def split: sum.splits)
      then have "rest = []" using new(3) by blast
      then show ?thesis using m tr2 ini new(2) init Inr
        by (intro exI [of _ ini] exI [of _ new] exI [of _ rest] exI [of _ "[]"]) simp
    qed
  qed
qed

section \<open>A step that throws (C1)\<close>

lemma main_issued:
  assumes fresh: "trace w = []"
    and issued: "Collab site c \<in> set (trace (snd (main env options w)))"
  shows "\<exists>u w1. mainInit env options w = (Inr u, w1)
           \<and> Collab site c \<in> set (trace (snd (mainTry env options w1)))"
proof -
  obtain r0 w1 where init: "mainInit env options w = (r0, w1)" by (cases "mainInit env options w")
  from mainInit_trace [of env options w] init obtain ini where
    ini: "trace w1 = trace w @ ini" "\<forall>ev\<in>set ini. isLedger ev" by auto
  have notin1: "Collab site c \<notin> set (trace w1)"
    using ini fresh by (auto simp: isLedger_def)
  show ?thesis
  proof (cases r0)
    case (Inl e)
    then have "main env options w = (Inl e, w1)" using init by (simp add: main_init_Inl)
    then show ?thesis using issued notin1 by simp
  next
    case (Inr u)
    obtain r2 w2 where tryr: "mainTry env options w1 = (r2, w2)" by (cases "mainTry env options w1")
    have "Collab site c \<in> set (trace w2)"
    proof (cases r2)
      case (Inl e)
      then have m: "main env options w = mainCatch env options e w2"
        using init Inr tryr by (simp add: main_try_Inl)
      from mainCatch_trace [of env options e w2] obtain fin where
        "trace (snd (mainCatch env options e w2)) = trace w2 @ fin" "\<forall>ev\<in>set fin. isLedger ev"
        by blast
      then show ?thesis using issued m by (auto simp: isLedger_def)
    next
      case r2: (Inr url)
      then have "main env options w = (Inr url, w2)" using init Inr tryr by (simp add: main_try_Inr)
      then show ?thesis using issued by simp
    qed
    then show ?thesis using init Inr tryr by simp
  qed
qed

text \<open>
  Claim C1, amended. In a run with an id, when the collaborator call of a step is issued and
  throws, and the service accepts the write of the catch block, the run rejects with what
  the call threw, and the row ends with status Error and with lastStatus the value of the
  failing step itself: the value written just before the call (Auth when the GitHub client
  cannot be constructed).
\<close>

theorem failing_step_status:
  assumes ident: "id_opt options = Some i" "i \<noteq> []"
    and fresh: "trace w = []"
    and issued: "Collab site c \<in> set (trace (snd (main env options w)))"
    and thr: "throws env site = Some e"
    and acc: "rejects env (errorRequest options i) = None"
  shows "fst (main env options w) = Inl e
     \<and> rowProp (snd (main env options w)) (owner options) i ''status'' = Some (EdmInt32 (ordinal Error))
     \<and> rowProp (snd (main env options w)) (owner options) i ''lastStatus'' =
         Some (EdmInt32 (ordinal (stage site)))"
proof -
  from main_issued [OF fresh issued] obtain u w1 where
    init: "mainInit env options w = (Inr u, w1)" and
    iss: "Collab site c \<in> set (trace (snd (mainTry env options w1)))" by blast
  obtain r2 w2 where tryr: "mainTry env options w1 = (r2, w2)" by (cases "mainTry env options w1")
  from mainTry_throw [OF ident init fresh iss thr] tryr obtain old where
    r2: "r2 = Inl e" and
    old: "row w2 (owner options) i = Some old"
      "map_of old ''lastStatus'' = Some (EdmInt32 (ordinal (stage site)))"
    by auto
  have m: "main env options w = mainCatch env options e w2"
    using init tryr r2 by (simp add: main_try_Inl)
  have acc': "rejects env (InsertOrMergeEntity tableName
                (statusEntryWithoutLast i (owner options) Error)) = None"
    using acc by (simp add: errorRequest_def)
  from mainCatch_accepted [OF ident old(1) acc', of e] old(2) show ?thesis
    by (simp add: m rowProp_def map_of_merge_statusEntryWithoutLast)
qed

text \<open>
  C1, as the specification states it, at its own scenario: the transformation throws, and
  the row of (acme, r1) ends with status Error and lastStatus Upgrade, not Checkout.
\<close>

theorem upgrade_throws_counterexample:
  "throws upgradeThrowsEnv UpgradeFromProject = Some (Thrown ''upgrade failed'')
   \<and> fst (main upgradeThrowsEnv acmeOptions freshWorld) = Inl (Thrown ''upgrade failed'')
   \<and> rowProp (snd (main upgradeThrowsEnv acmeOptions freshWorld)) ''acme'' ''r1'' ''status'' =
       Some (EdmInt32 (ordinal Error))
   \<and> rowProp (snd (main upgradeThrowsEnv acmeOptions freshWorld)) ''acme'' ''r1'' ''lastStatus'' =
       Some (EdmInt32 (ordinal Upgrade))
   \<and> rowProp (snd (main upgradeThrowsEnv acmeOptions freshWorld)) ''acme'' ''r1'' ''lastStatus'' \<noteq>
       Some (EdmInt32 (ordinal Checkout))"
  by code_simp

theorem failing_step_status_witness:
  "id_opt acmeOptions = Some ''r1'' \<and> ''r1'' \<noteq> [] \<and> trace freshWorld = []
   \<and> Collab UpgradeFromProject (Upgrade_upgradeFromProject ''/tmp/0b5e'' 7)
        \<in> set (trace (snd (main upgradeThrowsEnv acmeOptions freshWorld)))
   \<and> throws upgradeThrowsEnv UpgradeFromProject = Some (Thrown ''upgrade failed'')
   \<and> rejects upgradeThrowsEnv (errorRequest acmeOptions ''r1'') = None
   \<and> fst (main upgradeThrowsEnv acmeOptions freshWorld) = Inl (Thrown ''upgrade failed'')
   \<and> rowProp (snd (main upgradeThrowsEnv acmeOptions freshWorld)) (owner acmeOptions) ''r1''
        ''status'' = Some (EdmInt32 (ordinal Error))
   \<and> rowProp (snd (main upgradeThrowsEnv acmeOptions freshWorld)) (owner acmeOptions) ''r1''
        ''lastStatus'' = Some (EdmInt32 (ordinal (stage UpgradeFromProject)))"
proof -
  have h1: "id_opt acmeOptions = Some ''r1''" by (simp add: acmeOptions_def)
  have h2: "''r1'' \<noteq> []" by simp
  have h3: "trace freshWorld = []" by (simp add: freshWorld_def)
  have h4: "Collab UpgradeFromProject (Upgrade_upgradeFromProject ''/tmp/0b5e'' 7)
        \<in> set (trace (snd (main upgradeThrowsEnv acmeOptions freshWorld)))" by code_simp
  have h5: "throws upgradeThrowsEnv UpgradeFromProject = Some (Thrown ''upgrade failed'')"
    by (simp add: upgradeThrowsEnv_def)
  have h6: "rejects upgradeThrowsEnv (errorRequest acmeOptions ''r1'') = None"
    by (simp add: upgradeThrowsEnv_def calmEnv_def)
  from failing_step_status [OF h1 h2 h3 h4 h5 h6] h1 h2 h3 h4 h5 h6 show ?thesis by blast
qed

section \<open>Status writes come before the calls (C9)\<close>

lemma announced_ledger: "\<forall>ev\<in>set es. isLedger ev \<Longrightarrow> announced need seen es"
proof (induction es arbitrary: seen)
  case Nil
  then show ?case by simp
next
  case (Cons x xs)
  then show ?case by (cases x) (simp_all add: isLedger_def)
qed

lemma announced_append:
  "announced need seen (xs @ ys) =
     (announced need seen xs \<and> announced need (rev xs @ seen) ys)"
proof (induction xs arbitrary: seen)
  case Nil
  then show ?case by simp
next
  case (Cons x xs)
  then show ?case by (cases x) auto
qed

lemma announced_split:
  "announced need seen es \<Longrightarrow> es = pre @ Collab site c # post \<Longrightarrow>
   need site \<in> set seen \<union> set pre"
  by (auto simp: announced_append)

lemma announced_prefix: "announced need seen (xs @ ys) \<Longrightarrow> announced need seen xs"
  by (simp add: announced_append)

lemma announced_extend:
  "announced need seen xs \<Longrightarrow> \<forall>ev\<in>set ys. isLedger ev \<Longrightarrow> announced need seen (xs @ ys)"
  by (simp add: announced_append announced_ledger)

lemma script_announced:
  assumes ident: "id_opt options = Some i" "i \<noteq> []"
  shows "announced (announce env options i) []
           ([Ledger (CreateTableIfNotExists tableName),
             Ledger (InsertOrReplaceEntity tableName (initialEntry env options i))]
            @ scriptEvents options (script env options))"
  using ident
  by (cases "commits env")
     (simp_all add: script_def workingSteps_def scriptEvents_def announce_def)

lemma main_announced:
  assumes ident: "id_opt options = Some i" "i \<noteq> []"
    and fresh: "trace w = []"
  shows "announced (announce env options i) [] (trace (snd (main env options w)))"
proof -
  let ?need = "announce env options i"
  obtain r0 w1 where init: "mainInit env options w = (r0, w1)" by (cases "mainInit env options w")
  show ?thesis
  proof (cases r0)
    case (Inl e)
    from mainInit_trace [of env options w] init obtain ini where
      ini: "trace w1 = trace w @ ini" "\<forall>ev\<in>set ini. isLedger ev" by auto
    have "main env options w = (Inl e, w1)" using init Inl by (simp add: main_init_Inl)
    then show ?thesis using ini fresh by (simp add: announced_ledger)
  next
    case (Inr u)
    let ?ini = "[Ledger (CreateTableIfNotExists tableName),
                 Ledger (InsertOrReplaceEntity tableName (initialEntry env options i))]"
    have tr1: "trace w1 = ?ini" using mainInit_Inr [OF ident] init Inr fresh by simp
    obtain r2 w2 where tryr: "mainTry env options w1 = (r2, w2)" by (cases "mainTry env options w1")
    from runSteps_trace [of env options "script env options" w1] obtain new rest where
      new: "trace (snd (runSteps env options (script env options) w1)) = trace w1 @ new"
        "scriptEvents options (script env options) = new @ rest"
      by blast
    have tr2: "trace w2 = ?ini @ new" using new(1) tryr mainTry_snd [of env options w1] tr1 by simp
    have "announced ?need [] (?ini @ scriptEvents options (script env options))"
      by (rule script_announced [OF ident])
    then have "announced ?need [] ((?ini @ new) @ rest)"
      unfolding new(2) append_assoc .
    then have a2: "announced ?need [] (?ini @ new)" by (rule announced_prefix)
    show ?thesis
    proof (cases r2)
      case (Inl e)
      then have m: "main env options w = mainCatch env options e w2"
        using init Inr tryr by (simp add: main_try_Inl)
      from mainCatch_trace [of env options e w2] obtain fin where
        fin: "trace (snd (mainCatch env options e w2)) = trace w2 @ fin" "\<forall>ev\<in>set fin. isLedger ev"
        by blast
      have "announced ?need [] ((?ini @ new) @ fin)"
        using a2 fin(2) by (rule announced_extend)
      then show ?thesis unfolding m fin(1) tr2 .
    next
      case r2: (Inr url)
      then have "main env options w = (Inr url, w2)" using init Inr tryr by (simp add: main_try_Inr)
      then have "trace (snd (main env options w)) = ?ini @ new" using tr2 by simp
      then show ?thesis using a2 by (simp only:)
    qed
  qed
qed

text \<open>
  Claim C9. In a run with an id, every collaborator call in the trace comes after the
  ledger write that carries the status value of its step (for the client construction,
  the write of the initial record); and when a call that is issued in the try block
  throws, the block rejects there and the row's status and lastStatus are the value of that
  very step, the one written just before the call.
\<close>

theorem status_written_before_action:
  assumes ident: "id_opt options = Some i" "i \<noteq> []"
    and fresh: "trace w = []"
  shows "(\<forall>pre site c post.
            trace (snd (main env options w)) = pre @ Collab site c # post \<longrightarrow>
            announce env options i site \<in> set pre)
     \<and> (\<forall>site c e.
            fst (mainInit env options w) = Inr ()
            \<and> Collab site c \<in> set (trace (snd (mainTry env options (snd (mainInit env options w)))))
            \<and> throws env site = Some e \<longrightarrow>
            fst (mainTry env options (snd (mainInit env options w))) = Inl e
            \<and> rowProp (snd (mainTry env options (snd (mainInit env options w)))) (owner options) i
                 ''status'' = Some (EdmInt32 (ordinal (stage site)))
            \<and> rowProp (snd (mainTry env options (snd (mainInit env options w)))) (owner options) i
                 ''lastStatus'' = Some (EdmInt32 (ordinal (stage site))))"
proof -
  have ordering: "announce env options i site \<in> set pre"
    if "trace (snd (main env options w)) = pre @ Collab site c # post" for pre site c post
    using announced_split [OF main_announced [OF ident fresh] that] by simp
  let ?w1 = "snd (mainInit env options w)"
  have throwing: "fst (mainTry env options ?w1) = Inl e
      \<and> rowProp (snd (mainTry env options ?w1)) (owner options) i ''status'' =
           Some (EdmInt32 (ordinal (stage site)))
      \<and> rowProp (snd (mainTry env options ?w1)) (owner options) i ''lastStatus'' =
           Some (EdmInt32 (ordinal (stage site)))"
    if ok: "fst (mainInit env options w) = Inr ()"
      and issued: "Collab site c \<in> set (trace (snd (mainTry env options ?w1)))"
      and thr: "throws env site = Some e" for site c e
  proof -
    have init: "mainInit env options w = (Inr (), ?w1)"
      using ok by (cases "mainInit env options w") simp
    from mainTry_throw [OF ident init fresh issued thr] obtain old where
      "fst (mainTry env options ?w1) = Inl e"
      "row (snd (mainTry env options ?w1)) (owner options) i = Some old"
      "map_of old ''status'' = Some (EdmInt32 (ordinal (stage site)))"
      "map_of old ''lastStatus'' = Some (EdmInt32 (ordinal (stage site)))"
      by blast
    then show ?thesis by (simp add: rowProp_def)
  qed
  show ?thesis
  proof (rule conjI)
    show "\<forall>pre site c post.
            trace (snd (main env options w)) = pre @ Collab site c # post \<longrightarrow>
            announce env options i site \<in> set pre"
      by (intro allI impI) (rule ordering)
    show "\<forall>site c e.
            fst (mainInit env options w) = Inr ()
            \<and> Collab site c \<in> set (trace (snd (mainTry env options (snd (mainInit env options w)))))
            \<and> throws env site = Some e \<longrightarrow>
            fst (mainTry env options (snd (mainInit env options w))) = Inl e
            \<and> rowProp (snd (mainTry env options (snd (mainInit env options w)))) (owner options) i
                 ''status'' = Some (EdmInt32 (ordinal (stage site)))
            \<and> rowProp (snd (mainTry env options (snd (mainInit env options w)))) (owner options) i
                 ''lastStatus'' = Some (EdmInt32 (ordinal (stage site)))"
      by (intro allI impI, elim conjE) (rule throwing)
  qed
qed

theorem status_written_before_action_witness:
  "id_opt acmeOptions = Some ''r1'' \<and> ''r1'' \<noteq> [] \<and> trace freshWorld = []
   \<and> trace (snd (main upgradeThrowsEnv acmeOptions freshWorld)) =
       take 14 (trace (snd (main upgradeThrowsEnv acmeOptions freshWorld)))
       @ Collab UpgradeFromProject (Upgrade_upgradeFromProject ''/tmp/0b5e'' 7)
       # drop 15 (trace (snd (main upgradeThrowsEnv acmeOptions freshWorld)))
   \<and> announce upgradeThrowsEnv acmeOptions ''r1'' UpgradeFromProject
       \<in> set (take 14 (trace (snd (main upgradeThrowsEnv acmeOptions freshWorld))))
   \<and> fst (mainInit upgradeThrowsEnv acmeOptions freshWorld) = Inr ()
   \<and> Collab UpgradeFromProject (Upgrade_upgradeFromProject ''/tmp/0b5e'' 7)
       \<in> set (trace (snd (mainTry upgradeThrowsEnv acmeOptions
                             (snd (mainInit upgradeThrowsEnv acmeOptions freshWorld)))))
   \<and> throws upgradeThrowsEnv UpgradeFromProject = Some (Thrown ''upgrade failed'')
   \<and> fst (mainTry upgradeThrowsEnv acmeOptions
             (snd (mainInit upgradeThrowsEnv acmeOptions freshWorld))) = Inl (Thrown ''upgrade failed'')
   \<and> rowProp (snd (mainTry upgradeThrowsEnv acmeOptions
                      (snd (mainInit upgradeThrowsEnv acmeOptions freshWorld))))
        (owner acmeOptions) ''r1'' ''lastStatus'' = Some (EdmInt32 (ordinal (stage UpgradeFromProject)))"
proof -
  let ?tr = "trace (snd (main upgradeThrowsEnv acmeOptions freshWorld))"
  let ?c = "Upgrade_upgradeFromProject ''/tmp/0b5e'' 7"
  let ?w1 = "snd (mainInit upgradeThrowsEnv acmeOptions freshWorld)"
  have h1: "id_opt acmeOptions = Some ''r1''" by (simp add: acmeOptions_def)
  have h2: "''r1'' \<noteq> []" by simp
  have h3: "trace freshWorld = []" by (simp add: freshWorld_def)
  have h4: "?tr = take 14 ?tr @ Collab UpgradeFromProject ?c # drop 15 ?tr" by code_simp
  have h5: "fst (mainInit upgradeThrowsEnv acmeOptions freshWorld) = Inr ()" by code_simp
  have h6: "Collab UpgradeFromProject ?c \<in> set (trace (snd (mainTry upgradeThrowsEnv acmeOptions ?w1)))"
    by code_simp
  have h7: "throws upgradeThrowsEnv UpgradeFromProject = Some (Thrown ''upgrade failed'')"
    by (simp add: upgradeThrowsEnv_def)
  note inst = status_written_before_action [OF h1 h2 h3, of upgradeThrowsEnv]
  from inst have ordering: "?tr = take 14 ?tr @ Collab UpgradeFromProject ?c # drop 15 ?tr \<longrightarrow>
      announce upgradeThrowsEnv acmeOptions ''r1'' UpgradeFromProject \<in> set (take 14 ?tr)"
    by (elim conjE allE)
  from inst have throwing: "fst (mainInit upgradeThrowsEnv acmeOptions freshWorld) = Inr ()
      \<and> Collab UpgradeFromProject ?c \<in> set (trace (snd (mainTry upgradeThrowsEnv acmeOptions ?w1)))
      \<and> throws upgradeThrowsEnv UpgradeFromProject = Some (Thrown ''upgrade failed'') \<longrightarrow>
      fst (mainTry upgradeThrowsEnv acmeOptions ?w1) = Inl (Thrown ''upgrade failed'')
      \<and> rowProp (snd (mainTry upgradeThrowsEnv acmeOptions ?w1)) (owner acmeOptions) ''r1''
           ''status'' = Some (EdmInt32 (ordinal (stage UpgradeFromProject)))
      \<and> rowProp (snd (mainTry upgradeThrowsEnv acmeOptions ?w1)) (owner acmeOptions) ''r1''
           ''lastStatus'' = Some (EdmInt32 (ordinal (stage UpgradeFromProject)))"
    by (elim conjE allE)
  from ordering h4 have c1: "announce upgradeThrowsEnv acmeOptions ''r1'' UpgradeFromProject
      \<in> set (take 14 ?tr)" by (rule mp)
  from throwing h5 h6 h7 have c2: "fst (mainTry upgradeThrowsEnv acmeOptions ?w1) = Inl (Thrown ''upgrade failed'')
      \<and> rowProp (snd (mainTry upgradeThrowsEnv acmeOptions ?w1)) (owner acmeOptions) ''r1''
           ''status'' = Some (EdmInt32 (ordinal (stage UpgradeFromProject)))
      \<and> rowProp (snd (mainTry upgradeThrowsEnv acmeOptions ?w1)) (owner acmeOptions) ''r1''
           ''lastStatus'' = Some (EdmInt32 (ordinal (stage UpgradeFromProject)))"
    by (intro mp [OF throwing] conjI)
  from c2 have c2a: "fst (mainTry upgradeThrowsEnv acmeOptions ?w1) = Inl (Thrown ''upgrade failed'')"
    by (rule conjunct1)
  from c2 have c2b: "rowProp (snd (mainTry upgradeThrowsEnv acmeOptions ?w1)) (owner acmeOptions) ''r1''
           ''lastStatus'' = Some (EdmInt32 (ordinal (stage UpgradeFromProject)))"
    by (rule conjunct2 [OF conjunct2])
  from h1 h2 h3 h4 c1 h5 h6 h7 c2a c2b show ?thesis by (intro conjI)
qed

section \<open>The catch block (C2)\<close>

lemma script_no_error:
  "list_all (\<lambda>ev. \<not> setsStatus Error ev) (scriptEvents options (script env options))"
proof (cases "id_opt options")
  case None
  then show ?thesis
    by (cases "commits env") (simp_all add: script_def workingSteps_def scriptEvents_def)
next
  case (Some i)
  then show ?thesis
    by (cases "commits env")
       (simp_all add: script_def workingSteps_def scriptEvents_def statusEntry_def)
qed

lemma filter_prefix_empty:
  "list_all (\<lambda>ev. \<not> P ev) (new @ rest) \<Longrightarrow> filter P new = []"
  by (induction new) simp_all

text \<open>
  Claim C2. In a run with an id whose record was created, when the try block rejects with
  \<open>e\<close> (whatever raised it) and the service accepts the write of the catch block: the run
  rejects with the same \<open>e\<close>; the catch block issues one request, a merge that names the two
  keys and status Error; it is the only request of the whole run that sets status to Error;
  and in the row every property other than status (lastStatus, owner, repo, branch,
  version, the keys) is what it was when the try block failed.
\<close>

theorem error_marks_status_only:
  assumes ident: "id_opt options = Some i" "i \<noteq> []"
    and fresh: "trace w = []"
    and init: "fst (mainInit env options w) = Inr ()"
    and fail: "fst (mainTry env options (snd (mainInit env options w))) = Inl e"
    and acc: "rejects env (errorRequest options i) = None"
  shows "fst (main env options w) = Inl e
     \<and> trace (snd (main env options w)) =
         trace (snd (mainTry env options (snd (mainInit env options w))))
         @ [Ledger (errorRequest options i)]
     \<and> filter (setsStatus Error) (trace (snd (main env options w))) =
         [Ledger (errorRequest options i)]
     \<and> rowProp (snd (main env options w)) (owner options) i ''status'' =
         Some (EdmInt32 (ordinal Error))
     \<and> (\<forall>p. p \<noteq> ''status'' \<longrightarrow>
           rowProp (snd (main env options w)) (owner options) i p =
           rowProp (snd (mainTry env options (snd (mainInit env options w)))) (owner options) i p)"
proof -
  let ?own = "owner options"
  let ?w1 = "snd (mainInit env options w)"
  let ?w2 = "snd (mainTry env options ?w1)"
  let ?req = "errorRequest options i"
  let ?ini = "[Ledger (CreateTableIfNotExists tableName),
               Ledger (InsertOrReplaceEntity tableName (initialEntry env options i))]"
  have init': "mainInit env options w = (Inr (), ?w1)"
    using init by (cases "mainInit env options w") simp
  have tryr: "mainTry env options ?w1 = (Inl e, ?w2)"
    using fail by (cases "mainTry env options ?w1") simp
  from mainInit_Inr [OF ident init'] fresh have
    row1: "row ?w1 ?own i = Some (initialEntry env options i)" and tr1: "trace ?w1 = ?ini"
    by simp_all
  from runSteps_row_inv [OF ident row1 initialEntry_props(1), of env "script env options"]
  obtain old where old: "row ?w2 ?own i = Some old" "keyed ?own i old"
    by (auto simp: mainTry_snd)
  have m: "main env options w = mainCatch env options e ?w2"
    using init' tryr by (rule main_try_Inl)
  have acc': "rejects env (InsertOrMergeEntity tableName
                (statusEntryWithoutLast i ?own Error)) = None"
    using acc by (simp add: errorRequest_def)
  note c = mainCatch_accepted [OF ident old(1) acc', of e]
  have res: "fst (main env options w) = Inl e" using c(1) by (simp add: m)
  have tr: "trace (snd (main env options w)) = trace ?w2 @ [Ledger ?req]"
    using c(3) by (simp add: m errorRequest_def)
  have rw: "row (snd (main env options w)) ?own i =
      Some (AList.merge old (statusEntryWithoutLast i ?own Error))"
    using c(2) by (simp add: m)
  have st: "rowProp (snd (main env options w)) ?own i ''status'' = Some (EdmInt32 (ordinal Error))"
    by (simp add: rowProp_def rw map_of_merge_statusEntryWithoutLast)
  have others: "\<forall>p. p \<noteq> ''status'' \<longrightarrow>
      rowProp (snd (main env options w)) ?own i p = rowProp ?w2 ?own i p"
    using old(2) by (auto simp: rowProp_def rw old(1) map_of_merge_statusEntryWithoutLast keyed_def)
  from runSteps_trace [of env options "script env options" ?w1] obtain new rest where
    new: "trace (snd (runSteps env options (script env options) ?w1)) = trace ?w1 @ new"
      "scriptEvents options (script env options) = new @ rest"
    by blast
  have tr2: "trace ?w2 = ?ini @ new" using new(1) tr1 by (simp add: mainTry_snd)
  have "list_all (\<lambda>ev. \<not> setsStatus Error ev) (new @ rest)"
    using script_no_error [of options env] by (simp only: new(2))
  then have none: "filter (setsStatus Error) new = []" by (rule filter_prefix_empty)
  have once: "filter (setsStatus Error) (trace (snd (main env options w))) = [Ledger ?req]"
    by (simp add: tr tr2 none) (simp add: initialEntry_def errorRequest_def statusEntryWithoutLast_def)
  from res tr once st others show ?thesis by (intro conjI)
qed

theorem error_marks_status_only_witness:
  "id_opt acmeOptions = Some ''r1'' \<and> ''r1'' \<noteq> [] \<and> trace freshWorld = []
   \<and> fst (mainInit upgradeThrowsEnv acmeOptions freshWorld) = Inr ()
   \<and> fst (mainTry upgradeThrowsEnv acmeOptions
             (snd (mainInit upgradeThrowsEnv acmeOptions freshWorld))) = Inl (Thrown ''upgrade failed'')
   \<and> rejects upgradeThrowsEnv (errorRequest acmeOptions ''r1'') = None
   \<and> fst (main upgradeThrowsEnv acmeOptions freshWorld) = Inl (Thrown ''upgrade failed'')
   \<and> filter (setsStatus Error) (trace (snd (main upgradeThrowsEnv acmeOptions freshWorld))) =
       [Ledger (errorRequest acmeOptions ''r1'')]
   \<and> rowProp (snd (main upgradeThrowsEnv acmeOptions freshWorld)) (owner acmeOptions) ''r1''
        ''status'' = Some (EdmInt32 (ordinal Error))
   \<and> ''lastStatus'' \<noteq> ''status''
   \<and> rowProp (snd (main upgradeThrowsEnv acmeOptions freshWorld)) (owner acmeOptions) ''r1''
        ''lastStatus'' =
       rowProp (snd (mainTry upgradeThrowsEnv acmeOptions
                      (snd (mainInit upgradeThrowsEnv acmeOptions freshWorld))))
        (owner acmeOptions) ''r1'' ''lastStatus''"
proof -
  have h1: "id_opt acmeOptions = Some ''r1''" by (simp add: acmeOptions_def)
  have h2: "''r1'' \<noteq> []" by simp
  have h3: "trace freshWorld = []" by (simp add: freshWorld_def)
  have h4: "fst (mainInit upgradeThrowsEnv acmeOptions freshWorld) = Inr ()" by code_simp
  have h5: "fst (mainTry upgradeThrowsEnv acmeOptions
             (snd (mainInit upgradeThrowsEnv acmeOptions freshWorld))) = Inl (Thrown ''upgrade failed'')"
    by code_simp
  have h6: "rejects upgradeThrowsEnv (errorRequest acmeOptions ''r1'') = None"
    by (simp add: upgradeThrowsEnv_def calmEnv_def)
  have h7: "''lastStatus'' \<noteq> ''status''" by simp
  note inst = error_marks_status_only [OF h1 h2 h3 h4 h5 h6]
  from inst have c1: "fst (main upgradeThrowsEnv acmeOptions freshWorld) = Inl (Thrown ''upgrade failed'')"
    by (elim conjE)
  from inst have c2: "filter (setsStatus Error) (trace (snd (main upgradeThrowsEnv acmeOptions freshWorld))) =
       [Ledger (errorRequest acmeOptions ''r1'')]"
    by (elim conjE)
  from inst have c3: "rowProp (snd (main upgradeThrowsEnv acmeOptions freshWorld)) (owner acmeOptions) ''r1''
        ''status'' = Some (EdmInt32 (ordinal Error))"
    by (elim conjE)
  from inst have "''lastStatus'' \<noteq> ''status'' \<longrightarrow>
      rowProp (snd (main upgradeThrowsEnv acmeOptions freshWorld)) (owner acmeOptions) ''r1''
        ''lastStatus'' =
       rowProp (snd (mainTry upgradeThrowsEnv acmeOptions
                      (snd (mainInit upgradeThrowsEnv acmeOptions freshWorld))))
        (owner acmeOptions) ''r1'' ''lastStatus''"
    by (elim conjE allE)
  from this h7 have c4: "rowProp (snd (main upgradeThrowsEnv acmeOptions freshWorld)) (owner acmeOptions) ''r1''
        ''lastStatus'' =
       rowProp (snd (mainTry upgradeThrowsEnv acmeOptions
                      (snd (mainInit upgradeThrowsEnv acmeOptions freshWorld))))
        (owner acmeOptions) ''r1'' ''lastStatus''"
    by (rule mp)
  from h1 h2 h3 h4 h5 h6 c1 c2 c3 h7 c4 show ?thesis by (intro conjI)
qed

section \<open>A run that returns (C3)\<close>

lemma script_Raise: "commits env = [] \<Longrightarrow> Raise TypeError \<in> set (script env options)"
  by (simp add: script_def)

lemma main_success:
  assumes success: "fst (main env options w) = Inr url"
  shows "\<exists>w1 w2. mainInit env options w = (Inr (), w1)
           \<and> runSteps env options (script env options) w1 = (Inr (), w2)
           \<and> main env options w = (Inr (prResult env), w2)"
proof -
  obtain r0 w1 where init: "mainInit env options w = (r0, w1)" by (cases "mainInit env options w")
  obtain r2 w2 where run: "runSteps env options (script env options) w1 = (r2, w2)"
    by (cases "runSteps env options (script env options) w1")
  show ?thesis
  proof (cases r0)
    case (Inl e)
    then show ?thesis using init success by (simp add: main_init_Inl)
  next
    case r0: (Inr u)
    show ?thesis
    proof (cases r2)
      case (Inl e)
      then have "mainTry env options w1 = (Inl e, w2)" using run by (simp add: mainTry_runSteps_Inl)
      then have "main env options w = mainCatch env options e w2"
        using init r0 by (simp add: main_try_Inl)
      then show ?thesis using success mainCatch_fst [of env options e w2] by auto
    next
      case (Inr v)
      then have "mainTry env options w1 = (Inr (prResult env), w2)"
        using run by (simp add: mainTry_runSteps_Inr)
      then have "main env options w = (Inr (prResult env), w2)"
        using init r0 by (simp add: main_try_Inr)
      then show ?thesis using init r0 run Inr by simp
    qed
  qed
qed

lemma script_written:
  assumes ident: "id_opt options = Some i" "i \<noteq> []" and cs: "commits env = c # cs"
  shows "List.map_filter lastStatusWritten
           ([Ledger (CreateTableIfNotExists tableName),
             Ledger (InsertOrReplaceEntity tableName (initialEntry env options i))]
            @ scriptEvents options (script env options)) =
         map ordinal [Auth, Fork, Clone, Branch, Checkout, Upgrade, Add, Commit, Push, Star, Pr, Done]"
  using ident cs
  by (simp add: script_def workingSteps_def scriptEvents_def statusEntry_def initialEntry_def
      List.map_filter_simps)

lemma script_lastRecorded: "commits env = c # cs \<Longrightarrow> lastRecorded Auth (script env options) = Done"
  by (simp add: script_def workingSteps_def)

text \<open>
  Claim C3. In a run with an id that returns the pull request, the lastStatus values of the
  ledger writes, in the order they were issued, are exactly Auth, Fork, Clone, Branch,
  Checkout, Upgrade, Add, Commit, Push, Star, Pr, Done (the numbers 0 to 11), each once;
  the row ends with status and lastStatus Done, and what is returned is the pull request's
  url.
\<close>

theorem successful_run_progression:
  assumes ident: "id_opt options = Some i" "i \<noteq> []"
    and fresh: "trace w = []"
    and success: "fst (main env options w) = Inr url"
  shows "List.map_filter lastStatusWritten (trace (snd (main env options w))) =
           map ordinal [Auth, Fork, Clone, Branch, Checkout, Upgrade, Add, Commit, Push, Star, Pr, Done]
     \<and> rowProp (snd (main env options w)) (owner options) i ''status'' = Some (EdmInt32 (ordinal Done))
     \<and> rowProp (snd (main env options w)) (owner options) i ''lastStatus'' = Some (EdmInt32 (ordinal Done))
     \<and> url = prResult env"
proof -
  let ?ini = "[Ledger (CreateTableIfNotExists tableName),
               Ledger (InsertOrReplaceEntity tableName (initialEntry env options i))]"
  from main_success [OF success] obtain w1 w2 where
    init: "mainInit env options w = (Inr (), w1)" and
    run: "runSteps env options (script env options) w1 = (Inr (), w2)" and
    m: "main env options w = (Inr (prResult env), w2)" by blast
  from mainInit_Inr [OF ident init] fresh have
    row1: "row w1 (owner options) i = Some (initialEntry env options i)" and tr1: "trace w1 = ?ini"
    by simp_all
  have "Raise TypeError \<notin> set (script env options)"
    using runSteps_Raise [of TypeError "script env options" env options w1 "()"] run by auto
  then obtain c cs where cs: "commits env = c # cs"
    using script_Raise [of env options] by (cases "commits env") auto
  from runSteps_trace [of env options "script env options" w1] run obtain new rest where
    "trace w2 = trace w1 @ new" "scriptEvents options (script env options) = new @ rest" "rest = []"
    by auto
  then have tr2: "trace w2 = ?ini @ scriptEvents options (script env options)" using tr1 by simp
  have written: "List.map_filter lastStatusWritten (trace (snd (main env options w))) =
      map ordinal [Auth, Fork, Clone, Branch, Checkout, Upgrade, Add, Commit, Push, Star, Pr, Done]"
    using script_written [OF ident cs] by (simp only: m snd_conv tr2)
  from runSteps_row [OF ident run row1 initialEntry_props] obtain old where
    "row w2 (owner options) i = Some old"
    "map_of old ''status'' = Some (EdmInt32 (ordinal (lastRecorded Auth (script env options))))"
    "map_of old ''lastStatus'' = Some (EdmInt32 (ordinal (lastRecorded Auth (script env options))))"
    by blast
  then have rowst: "rowProp (snd (main env options w)) (owner options) i ''status'' =
        Some (EdmInt32 (ordinal Done))"
      "rowProp (snd (main env options w)) (owner options) i ''lastStatus'' =
        Some (EdmInt32 (ordinal Done))"
    by (simp_all add: m rowProp_def script_lastRecorded [OF cs])
  have "url = prResult env" using success m by simp
  with written rowst show ?thesis by (intro conjI)
qed

theorem successful_run_progression_witness:
  "id_opt acmeOptions = Some ''r1'' \<and> ''r1'' \<noteq> [] \<and> trace freshWorld = []
   \<and> fst (main calmEnv acmeOptions freshWorld) =
       Inr ''https://api.github.com/repos/acme/widgets/pulls/1''
   \<and> List.map_filter lastStatusWritten (trace (snd (main calmEnv acmeOptions freshWorld))) =
       map ordinal [Auth, Fork, Clone, Branch, Checkout, Upgrade, Add, Commit, Push, Star, Pr, Done]
   \<and> rowProp (snd (main calmEnv acmeOptions freshWorld)) (owner acmeOptions) ''r1'' ''lastStatus'' =
       Some (EdmInt32 (ordinal Done))"
proof -
  have h1: "id_opt acmeOptions = Some ''r1''" by (simp add: acmeOptions_def)
  have h2: "''r1'' \<noteq> []" by simp
  have h3: "trace freshWorld = []" by (simp add: freshWorld_def)
  have h4: "fst (main calmEnv acmeOptions freshWorld) =
       Inr ''https://api.github.com/repos/acme/widgets/pulls/1''" by code_simp
  note inst = successful_run_progression [OF h1 h2 h3 h4]
  from inst have c1: "List.map_filter lastStatusWritten (trace (snd (main calmEnv acmeOptions freshWorld))) =
       map ordinal [Auth, Fork, Clone, Branch, Checkout, Upgrade, Add, Commit, Push, Star, Pr, Done]"
    by (elim conjE)
  from inst have c2: "rowProp (snd (main calmEnv acmeOptions freshWorld)) (owner acmeOptions) ''r1'' ''lastStatus'' =
       Some (EdmInt32 (ordinal Done))"
    by (elim conjE)
  from h1 h2 h3 h4 c1 c2 show ?thesis by (intro conjI)
qed

section \<open>A run without an id (C6)\<close>

lemma ifTruthy_falsy: "ident = None \<or> ident = Some [] \<Longrightarrow> ifTruthy ident f = resolve ()"
  by auto

lemma execStep_noid:
  assumes noid: "id_opt options = None \<or> id_opt options = Some []"
  shows "tables (snd (execStep env options x w)) = tables w
     \<and> filter isLedger (trace (snd (execStep env options x w))) = filter isLedger (trace w)"
proof (cases x)
  case (Act site c)
  then show ?thesis by (simp add: perform_tables perform_trace isLedger_def)
next
  case (Record status)
  then show ?thesis using noid by (simp add: ifTruthy_falsy resolve_def)
next
  case (Raise e)
  then show ?thesis by (simp add: reject_def)
qed

lemma runSteps_noid:
  assumes noid: "id_opt options = None \<or> id_opt options = Some []"
  shows "tables (snd (runSteps env options steps w)) = tables w
     \<and> filter isLedger (trace (snd (runSteps env options steps w))) = filter isLedger (trace w)"
proof (induction steps arbitrary: w)
  case Nil
  then show ?case by (simp add: resolve_def)
next
  case (Cons x xs)
  obtain r w1 where ex: "execStep env options x w = (r, w1)" by (cases "execStep env options x w")
  from execStep_noid [OF noid, of env x w] ex have
    w1: "tables w1 = tables w" "filter isLedger (trace w1) = filter isLedger (trace w)" by simp_all
  show ?case
  proof (cases r)
    case (Inl e)
    then show ?thesis using ex w1 by (simp add: andThen_Inl)
  next
    case (Inr u)
    then show ?thesis using ex w1 Cons.IH [of w1] by (simp add: andThen_Inr)
  qed
qed

lemma main_noid:
  assumes noid: "id_opt options = None \<or> id_opt options = Some []"
  shows "snd (main env options w) = w
     \<or> snd (main env options w) = snd (runSteps env options (script env options) w)"
proof (cases "createTableServiceThrows env (Some (connectionString options))")
  case (Some e)
  then have "main env options w = (Inl e, w)" by (simp add: mainInit_thrown main_init_Inl)
  then show ?thesis by simp
next
  case None
  have init: "mainInit env options w = (Inr (), w)"
    using noid by (simp add: mainInit_built [OF None] ifTruthy_falsy resolve_def)
  obtain r2 w2 where tryr: "mainTry env options w = (r2, w2)" by (cases "mainTry env options w")
  have w2: "w2 = snd (runSteps env options (script env options) w)"
    using tryr mainTry_snd [of env options w] by simp
  show ?thesis
  proof (cases r2)
    case (Inl e)
    then have "main env options w = mainCatch env options e w2"
      using init tryr by (simp add: main_try_Inl)
    then show ?thesis using noid w2
      by (simp add: mainCatch_def ifTruthy_falsy andThen_resolve reject_def)
  next
    case (Inr url)
    then have "main env options w = (Inr url, w2)" using init tryr by (simp add: main_try_Inr)
    then show ?thesis using w2 by simp
  qed
qed

lemma no_tables:
  assumes noid: "id_opt options = None \<or> id_opt options = Some []"
  shows "tables (snd (main env options w)) = tables w"
  using runSteps_noid [OF noid, of env "script env options" w] main_noid [OF noid, of env w]
  by auto

lemma no_requests:
  assumes noid: "id_opt options = None \<or> id_opt options = Some []"
  shows "filter isLedger (trace (snd (main env options w))) = filter isLedger (trace w)"
  using runSteps_noid [OF noid, of env "script env options" w] main_noid [OF noid, of env w]
  by auto

lemma httpTrigger_tables:
  "tables w1 = tables w2 \<Longrightarrow>
   fst (httpTrigger env taskTableName j w1) = fst (httpTrigger env taskTableName j w2)"
  by (simp add: httpTrigger_def createTableService_def queryEntities_def tableRequest_def
      andThen_def resolve_def Let_def split: option.splits sum.splits list.splits)

text \<open>
  Claim C6. A run without an id (absent, or the empty string) issues no request to the
  table service and leaves every table as it was, whether it returns or rejects; so a
  status query answers after the run what it would have answered before it.
\<close>

theorem no_id_no_ledger:
  assumes noid: "id_opt options = None \<or> id_opt options = Some []"
  shows "tables (snd (main env options w)) = tables w
     \<and> filter isLedger (trace (snd (main env options w))) = filter isLedger (trace w)
     \<and> fst (httpTrigger env' taskTableName j (snd (main env options w))) =
         fst (httpTrigger env' taskTableName j w)"
proof -
  have t: "tables (snd (main env options w)) = tables w"
    by (rule no_tables [OF noid])
  have l: "filter isLedger (trace (snd (main env options w))) = filter isLedger (trace w)"
    by (rule no_requests [OF noid])
  from t have "fst (httpTrigger env' taskTableName j (snd (main env options w))) =
         fst (httpTrigger env' taskTableName j w)" by (rule httpTrigger_tables)
  with t l show ?thesis by (intro conjI)
qed

theorem no_id_no_ledger_witness:
  "id_opt anonymousOptions = None
   \<and> fst (main upgradeThrowsEnv anonymousOptions freshWorld) = Inl (Thrown ''upgrade failed'')
   \<and> tables (snd (main upgradeThrowsEnv anonymousOptions freshWorld)) = tables freshWorld
   \<and> filter isLedger (trace (snd (main upgradeThrowsEnv anonymousOptions freshWorld))) =
       filter isLedger (trace freshWorld)
   \<and> fst (httpTrigger calmEnv ''upgradeProcess'' ''r1''
             (snd (main upgradeThrowsEnv anonymousOptions freshWorld))) =
       fst (httpTrigger calmEnv ''upgradeProcess'' ''r1'' freshWorld)"
proof -
  have h1: "id_opt anonymousOptions = None" by (simp add: anonymousOptions_def)
  have h2: "fst (main upgradeThrowsEnv anonymousOptions freshWorld) = Inl (Thrown ''upgrade failed'')"
    by code_simp
  from h1 have h: "id_opt anonymousOptions = None \<or> id_opt anonymousOptions = Some []"
    by (rule disjI1)
  note inst = no_id_no_ledger [OF h, of upgradeThrowsEnv freshWorld calmEnv "''upgradeProcess''" "''r1''"]
  from inst have c1: "tables (snd (main upgradeThrowsEnv anonymousOptions freshWorld)) = tables freshWorld"
    by (elim conjE)
  from inst have c2: "filter isLedger (trace (snd (main upgradeThrowsEnv anonymousOptions freshWorld))) =
       filter isLedger (trace freshWorld)"
    by (elim conjE)
  from inst have c3: "fst (httpTrigger calmEnv ''upgradeProcess'' ''r1''
             (snd (main upgradeThrowsEnv anonymousOptions freshWorld))) =
       fst (httpTrigger calmEnv ''upgradeProcess'' ''r1'' freshWorld)"
    by (elim conjE)
  from h1 h2 c1 c2 c3 show ?thesis by (intro conjI)
qed

section \<open>The name of the working branch (C7)\<close>

lemma main_collab_in_script:
  assumes fresh: "trace w = []"
    and issued: "Collab site c \<in> set (trace (snd (main env options w)))"
  shows "Collab site c \<in> set (scriptEvents options (script env options))"
proof -
  from main_trace [of env options w] obtain ini new rest fin where
    tr: "trace (snd (main env options w)) = trace w @ ini @ new @ fin" and
    led: "\<forall>ev\<in>set ini. isLedger ev" "\<forall>ev\<in>set fin. isLedger ev" and
    sc: "scriptEvents options (script env options) = new @ rest"
    by blast
  have "Collab site c \<in> set new"
    using issued tr led fresh by (auto simp: isLedger_def)
  then show ?thesis by (simp add: sc)
qed

lemma script_GitBranch:
  assumes "Collab GitBranch call \<in> set (scriptEvents options (script env options))"
  shows "commits env \<noteq> []
     \<and> call = Git_branch (tempPath env) (''ts-upgrade-at-'' @ take 8 (tree (commit (hd (commits env)))))"
proof (cases "commits env")
  case Nil
  then show ?thesis using assms
    by (auto simp: script_def scriptEvents_def split: option.splits if_splits)
next
  case (Cons c cs)
  then show ?thesis using assms
    by (auto simp: script_def workingSteps_def scriptEvents_def split: option.splits if_splits)
qed

text \<open>
  Claim C7. Whenever a run of either orchestrator creates its working branch, the commit
  log was not empty and the branch is named ts-upgrade-at- followed by the first 8
  characters of the tree identifier of the first (most recent) commit of the log; so two
  runs whose logs start with the same tree identifier create branches of the same name.
\<close>

theorem working_branch_name:
  assumes fresh: "trace w = []"
    and issued: "Collab GitBranch (Git_branch dir ref) \<in> set (trace (snd (main env options w)))
       \<or> Collab GitBranch (Git_branch dir ref) \<in> set (trace (snd (doUpgradeMain env options w)))"
  shows "commits env \<noteq> []
     \<and> ref = ''ts-upgrade-at-'' @ take 8 (tree (commit (hd (commits env))))
     \<and> (\<forall>env' options' w' dir' ref'.
           trace w' = []
           \<and> (Collab GitBranch (Git_branch dir' ref') \<in> set (trace (snd (main env' options' w')))
              \<or> Collab GitBranch (Git_branch dir' ref')
                   \<in> set (trace (snd (doUpgradeMain env' options' w'))))
           \<and> tree (commit (hd (commits env'))) = tree (commit (hd (commits env)))
           \<longrightarrow> ref' = ref)"
proof -
  have name: "commits e \<noteq> [] \<and> r = ''ts-upgrade-at-'' @ take 8 (tree (commit (hd (commits e))))"
    if f: "trace v = []"
      and i: "Collab GitBranch (Git_branch d r) \<in> set (trace (snd (main e opts v)))
         \<or> Collab GitBranch (Git_branch d r) \<in> set (trace (snd (doUpgradeMain e opts v)))"
    for e opts v d r
    using i
  proof
    assume "Collab GitBranch (Git_branch d r) \<in> set (trace (snd (main e opts v)))"
    from script_GitBranch [OF main_collab_in_script [OF f this]] show ?thesis by simp
  next
    assume "Collab GitBranch (Git_branch d r) \<in> set (trace (snd (doUpgradeMain e opts v)))"
    from doUpgradeScript_GitBranch [OF doUpgradeMain_collab_in_script [OF f this]]
    show ?thesis by simp
  qed
  from name [OF fresh issued] have here:
    "commits env \<noteq> []" "ref = ''ts-upgrade-at-'' @ take 8 (tree (commit (hd (commits env))))"
    by simp_all
  have same: "\<forall>env' options' w' dir' ref'.
           trace w' = []
           \<and> (Collab GitBranch (Git_branch dir' ref') \<in> set (trace (snd (main env' options' w')))
              \<or> Collab GitBranch (Git_branch dir' ref')
                   \<in> set (trace (snd (doUpgradeMain env' options' w'))))
           \<and> tree (commit (hd (commits env'))) = tree (commit (hd (commits env)))
           \<longrightarrow> ref' = ref"
  proof (intro allI impI, elim conjE)
    fix env' :: Env and options' :: Options and w' :: World and dir' ref' :: string
    assume a: "trace w' = []"
      "Collab GitBranch (Git_branch dir' ref') \<in> set (trace (snd (main env' options' w')))
       \<or> Collab GitBranch (Git_branch dir' ref') \<in> set (trace (snd (doUpgradeMain env' options' w')))"
      "tree (commit (hd (commits env'))) = tree (commit (hd (commits env)))"
    from name [OF a(1,2)] have "ref' = ''ts-upgrade-at-'' @ take 8 (tree (commit (hd (commits env'))))"
      by simp
    then show "ref' = ref" using here(2) a(3) by simp
  qed
  from here same show ?thesis by (intro conjI)
qed

theorem working_branch_name_witness:
  "trace freshWorld = []
   \<and> Collab GitBranch (Git_branch ''/tmp/0b5e'' ''ts-upgrade-at-4b825dc6'')
        \<in> set (trace (snd (main calmEnv acmeOptions freshWorld)))
   \<and> commits calmEnv \<noteq> []
   \<and> ''ts-upgrade-at-4b825dc6'' = ''ts-upgrade-at-'' @ take 8 (tree (commit (hd (commits calmEnv))))
   \<and> Collab GitBranch (Git_branch ''/tmp/0b5e'' ''ts-upgrade-at-4b825dc6'')
        \<in> set (trace (snd (doUpgradeMain upgradeThrowsEnv anonymousOptions freshWorld)))
   \<and> tree (commit (hd (commits upgradeThrowsEnv))) = tree (commit (hd (commits calmEnv)))"
proof -
  have h1: "trace freshWorld = []" by (simp add: freshWorld_def)
  have h2: "Collab GitBranch (Git_branch ''/tmp/0b5e'' ''ts-upgrade-at-4b825dc6'')
        \<in> set (trace (snd (main calmEnv acmeOptions freshWorld)))" by code_simp
  have h3: "Collab GitBranch (Git_branch ''/tmp/0b5e'' ''ts-upgrade-at-4b825dc6'')
        \<in> set (trace (snd (doUpgradeMain upgradeThrowsEnv anonymousOptions freshWorld)))"
    by code_simp
  have h4: "tree (commit (hd (commits upgradeThrowsEnv))) = tree (commit (hd (commits calmEnv)))"
    by (simp add: upgradeThrowsEnv_def)
  note inst = working_branch_name [OF h1 disjI1 [OF h2]]
  from inst have c1: "commits calmEnv \<noteq> []" by (elim conjE)
  from inst have c2: "''ts-upgrade-at-4b825dc6'' =
      ''ts-upgrade-at-'' @ take 8 (tree (commit (hd (commits calmEnv))))" by (elim conjE)
  from h1 h2 c1 c2 h3 h4 show ?thesis by (intro conjI)
qed

section \<open>An empty commit log (C10)\<close>

lemma split_before_last:
  "xs @ [a, b] = pre @ a' # post \<Longrightarrow> a' \<notin> set xs \<Longrightarrow> a' \<noteq> b \<Longrightarrow>
   a' = a \<and> pre = xs \<and> post = [b]"
proof (induction xs arbitrary: pre)
  case Nil
  then show ?case
  proof (cases pre)
    case Nil
    then show ?thesis using Nil.prems by simp
  next
    case (Cons p ps)
    then show ?thesis using Nil.prems by (cases ps) auto
  qed
next
  case (Cons x xs)
  then show ?case by (cases pre) auto
qed

lemma script_empty_log:
  assumes empty: "commits env = []"
  shows "\<exists>xs. script env options =
           xs @ [Act GitLog (Git_log (tempPath env) (branchOf options)), Raise TypeError]
         \<and> (\<forall>c. Act GitLog c \<notin> set xs)"
proof (cases "branchOf options = []")
  case True
  then show ?thesis using empty by (simp add: script_def)
next
  case False
  then show ?thesis using empty
    by (intro exI [of _ "[Act NewOctokit (Octokit (authToken options)), Record Fork,
          Act CreateFork (Repos_createFork (owner options) (repo options)), Record Clone,
          Act GitClone (Git_clone (tempPath env) (clone_url (forkResult env))), Record Branch,
          Act GitCheckoutTarget (Git_checkout (tempPath env) (branchOf options))]"])
       (simp add: script_def)
qed

lemma doUpgradeScript_empty_log:
  assumes empty: "commits env = []"
  shows "\<exists>xs. doUpgradeScript env options =
           xs @ [Act GitLog (Git_log (tempPath env) (branchOf options)), Raise TypeError]
         \<and> (\<forall>c. Act GitLog c \<notin> set xs)"
proof (cases "branchOf options = []")
  case True
  then show ?thesis using empty by (simp add: doUpgradeScript_def)
next
  case False
  then show ?thesis using empty
    by (intro exI [of _ "[Act NewOctokit (Octokit (authToken options)),
          Act CreateFork (Repos_createFork (owner options) (repo options)),
          Act GitClone (Git_clone (tempPath env) (clone_url (forkResult env))),
          Act GitCheckoutTarget (Git_checkout (tempPath env) (branchOf options))]"])
       (simp add: doUpgradeScript_def)
qed

text \<open>Steps that end with reading the log and the failing slice, once the log has been read.\<close>

lemma runSteps_empty_log:
  assumes sc: "steps = xs @ [Act GitLog c0, Raise TypeError]" "\<forall>c. Act GitLog c \<notin> set xs"
    and notin: "Collab GitLog c \<notin> set (trace w1)"
    and issued: "Collab GitLog c \<in> set (trace (snd (runSteps env options steps w1)))"
    and ok: "throws env GitLog = None"
  shows "\<exists>pre wa. steps = pre @ Act GitLog c # [Raise TypeError]
           \<and> runSteps env options pre w1 = (Inr (), wa)
           \<and> runSteps env options steps w1 =
               (Inl TypeError, wa\<lparr>trace := trace wa @ [Collab GitLog c]\<rparr>)"
proof -
  from runSteps_issued_first [OF issued notin] obtain pre post wa where
    st: "steps = pre @ Act GitLog c # post" and
    run: "runSteps env options pre w1 = (Inr (), wa)" by blast
  have "xs @ [Act GitLog c0, Raise TypeError] = pre @ Act GitLog c # post"
    using sc(1) st by simp
  from split_before_last [OF this] sc(2) have post: "post = [Raise TypeError]" by simp
  have "runSteps env options steps w1 =
      (Inl TypeError, wa\<lparr>trace := trace wa @ [Collab GitLog c]\<rparr>)"
    using run ok by (simp add: st post runSteps_append andThen_def perform_def Let_def reject_def)
  then show ?thesis using st post run by blast
qed

lemma script_no_GitBranch:
  "commits env = [] \<Longrightarrow> Collab GitBranch call \<notin> set (scriptEvents options (script env options))"
  using script_GitBranch [of call options env] by blast

lemma doUpgradeScript_no_GitBranch:
  "commits env = [] \<Longrightarrow>
   Collab GitBranch call \<notin> set (scriptEvents options (doUpgradeScript env options))"
  using doUpgradeScript_GitBranch [of call options env] by blast

text \<open>The orchestrator with the ledger on an empty commit log.\<close>

lemma main_empty_log:
  assumes fresh: "trace w = []"
    and empty: "commits env = []"
    and issued: "Collab GitLog c \<in> set (trace (snd (main env options w)))"
    and ok: "throws env GitLog = None"
  shows "(\<forall>call. Collab GitBranch call \<notin> set (trace (snd (main env options w))))
     \<and> (id_opt options = None \<or> id_opt options = Some [] \<longrightarrow>
          fst (main env options w) = Inl TypeError \<and> tables (snd (main env options w)) = tables w)
     \<and> (\<forall>i. id_opt options = Some i \<and> i \<noteq> [] \<and> rejects env (errorRequest options i) = None \<longrightarrow>
          fst (main env options w) = Inl TypeError
          \<and> rowProp (snd (main env options w)) (owner options) i ''status'' =
               Some (EdmInt32 (ordinal Error))
          \<and> rowProp (snd (main env options w)) (owner options) i ''lastStatus'' =
               Some (EdmInt32 (ordinal Branch)))"
proof -
  have nobranch: "\<forall>call. Collab GitBranch call \<notin> set (trace (snd (main env options w)))"
    using main_collab_in_script [OF fresh] script_no_GitBranch [OF empty] by blast
  from main_issued [OF fresh issued] obtain u w1 where
    init: "mainInit env options w = (Inr u, w1)" and
    iss: "Collab GitLog c \<in> set (trace (snd (mainTry env options w1)))" by blast
  from mainInit_trace [of env options w] init fresh have notin: "Collab GitLog c \<notin> set (trace w1)"
    by (auto simp: isLedger_def)
  from script_empty_log [OF empty, of options] obtain xs where
    xs: "script env options =
           xs @ [Act GitLog (Git_log (tempPath env) (branchOf options)), Raise TypeError]"
      "\<forall>c. Act GitLog c \<notin> set xs" by blast
  have iss': "Collab GitLog c \<in> set (trace (snd (runSteps env options (script env options) w1)))"
    using iss by (simp add: mainTry_snd)
  from runSteps_empty_log [OF xs notin iss' ok] obtain pre wa where
    sc: "script env options = pre @ Act GitLog c # [Raise TypeError]" and
    run: "runSteps env options pre w1 = (Inr (), wa)" and
    res: "runSteps env options (script env options) w1 =
            (Inl TypeError, wa\<lparr>trace := trace wa @ [Collab GitLog c]\<rparr>)"
    by blast
  let ?wb = "wa\<lparr>trace := trace wa @ [Collab GitLog c]\<rparr>"
  have tryr: "mainTry env options w1 = (Inl TypeError, ?wb)"
    using res by (rule mainTry_runSteps_Inl)
  have m: "main env options w = mainCatch env options TypeError ?wb"
    using init tryr by (rule main_try_Inl)
  have without: "fst (main env options w) = Inl TypeError \<and> tables (snd (main env options w)) = tables w"
    if noid: "id_opt options = None \<or> id_opt options = Some []"
  proof -
    have "fst (main env options w) = Inl TypeError"
      using noid by (simp add: m mainCatch_def ifTruthy_falsy andThen_resolve reject_def)
    then show ?thesis using no_tables [OF noid] by simp
  qed
  have with_id: "fst (main env options w) = Inl TypeError
      \<and> rowProp (snd (main env options w)) (owner options) i ''status'' =
           Some (EdmInt32 (ordinal Error))
      \<and> rowProp (snd (main env options w)) (owner options) i ''lastStatus'' =
           Some (EdmInt32 (ordinal Branch))"
    if ident: "id_opt options = Some i" "i \<noteq> []"
      and acc: "rejects env (errorRequest options i) = None" for i
  proof -
    from mainInit_Inr [OF ident init] have
      row1: "row w1 (owner options) i = Some (initialEntry env options i)" by simp
    from runSteps_row [OF ident run row1 initialEntry_props] obtain old where
      old: "row wa (owner options) i = Some old"
        "map_of old ''lastStatus'' = Some (EdmInt32 (ordinal (lastRecorded Auth pre)))"
      by blast
    have st: "lastRecorded Auth pre = Branch"
      using script_stagesOk [of env options] sc stagesOk_split [of Auth pre GitLog c "[Raise TypeError]"]
      by simp
    have oldb: "row ?wb (owner options) i = Some old" using old(1) by (simp add: row_def)
    have acc': "rejects env (InsertOrMergeEntity tableName
                  (statusEntryWithoutLast i (owner options) Error)) = None"
      using acc by (simp add: errorRequest_def)
    from mainCatch_accepted [OF ident oldb acc', of TypeError] old(2) st show ?thesis
      by (simp add: m rowProp_def map_of_merge_statusEntryWithoutLast)
  qed
  show ?thesis
  proof (intro conjI)
    show "\<forall>call. Collab GitBranch call \<notin> set (trace (snd (main env options w)))"
      by (rule nobranch)
    show "id_opt options = None \<or> id_opt options = Some [] \<longrightarrow>
          fst (main env options w) = Inl TypeError \<and> tables (snd (main env options w)) = tables w"
      by (intro impI) (rule without)
    show "\<forall>i. id_opt options = Some i \<and> i \<noteq> [] \<and> rejects env (errorRequest options i) = None \<longrightarrow>
          fst (main env options w) = Inl TypeError
          \<and> rowProp (snd (main env options w)) (owner options) i ''status'' =
               Some (EdmInt32 (ordinal Error))
          \<and> rowProp (snd (main env options w)) (owner options) i ''lastStatus'' =
               Some (EdmInt32 (ordinal Branch))"
      by (intro allI impI, elim conjE) (rule with_id)
  qed
qed

text \<open>The orchestrator without a ledger on an empty commit log.\<close>

lemma doUpgradeMain_empty_log:
  assumes fresh: "trace w = []"
    and empty: "commits env = []"
    and issued: "Collab GitLog c \<in> set (trace (snd (doUpgradeMain env options w)))"
    and ok: "throws env GitLog = None"
  shows "fst (doUpgradeMain env options w) = Inl TypeError
     \<and> (\<forall>call. Collab GitBranch call \<notin> set (trace (snd (doUpgradeMain env options w))))"
proof -
  have nobranch: "\<forall>call. Collab GitBranch call \<notin> set (trace (snd (doUpgradeMain env options w)))"
    using doUpgradeMain_collab_in_script [OF fresh] doUpgradeScript_no_GitBranch [OF empty] by blast
  from doUpgradeScript_empty_log [OF empty, of options] obtain xs where
    xs: "doUpgradeScript env options =
           xs @ [Act GitLog (Git_log (tempPath env) (branchOf options)), Raise TypeError]"
      "\<forall>c. Act GitLog c \<notin> set xs" by blast
  have notin: "Collab GitLog c \<notin> set (trace w)" using fresh by simp
  have iss: "Collab GitLog c \<in> set (trace (snd (runSteps env options (doUpgradeScript env options) w)))"
    using issued by (simp add: doUpgradeMain_snd)
  from runSteps_empty_log [OF xs notin iss ok] obtain wa where
    "runSteps env options (doUpgradeScript env options) w =
       (Inl TypeError, wa\<lparr>trace := trace wa @ [Collab GitLog c]\<rparr>)"
    by blast
  then have "doUpgradeMain env options w = (Inl TypeError, wa\<lparr>trace := trace wa @ [Collab GitLog c]\<rparr>)"
    by (rule doUpgradeMain_runSteps_Inl)
  then show ?thesis using nobranch by simp
qed

text \<open>
  Claim C10. When the commit log is empty and a run has read it (the call returned), the
  run rejects with a TypeError and creates no branch, in either orchestrator. The one with
  the ledger handles it as any failure of the try block: with an id, when the service
  accepts the write of the catch block, the row ends with status Error (and lastStatus
  Branch, the step in progress); without an id the tables are untouched.
\<close>

theorem empty_log_type_error:
  assumes fresh: "trace w = []"
    and empty: "commits env = []"
    and ok: "throws env GitLog = None"
  shows "(Collab GitLog c \<in> set (trace (snd (main env options w))) \<longrightarrow>
            (\<forall>call. Collab GitBranch call \<notin> set (trace (snd (main env options w))))
          \<and> (id_opt options = None \<or> id_opt options = Some [] \<longrightarrow>
               fst (main env options w) = Inl TypeError
               \<and> tables (snd (main env options w)) = tables w)
          \<and> (\<forall>i. id_opt options = Some i \<and> i \<noteq> []
                   \<and> rejects env (errorRequest options i) = None \<longrightarrow>
               fst (main env options w) = Inl TypeError
               \<and> rowProp (snd (main env options w)) (owner options) i ''status'' =
                    Some (EdmInt32 (ordinal Error))
               \<and> rowProp (snd (main env options w)) (owner options) i ''lastStatus'' =
                    Some (EdmInt32 (ordinal Branch))))
     \<and> (Collab GitLog c \<in> set (trace (snd (doUpgradeMain env options w))) \<longrightarrow>
            fst (doUpgradeMain env options w) = Inl TypeError
          \<and> (\<forall>call. Collab GitBranch call \<notin> set (trace (snd (doUpgradeMain env options w)))))"
proof (rule conjI)
  show "Collab GitLog c \<in> set (trace (snd (main env options w))) \<longrightarrow>
            (\<forall>call. Collab GitBranch call \<notin> set (trace (snd (main env options w))))
          \<and> (id_opt options = None \<or> id_opt options = Some [] \<longrightarrow>
               fst (main env options w) = Inl TypeError
               \<and> tables (snd (main env options w)) = tables w)
          \<and> (\<forall>i. id_opt options = Some i \<and> i \<noteq> []
                   \<and> rejects env (errorRequest options i) = None \<longrightarrow>
               fst (main env options w) = Inl TypeError
               \<and> rowProp (snd (main env options w)) (owner options) i ''status'' =
                    Some (EdmInt32 (ordinal Error))
               \<and> rowProp (snd (main env options w)) (owner options) i ''lastStatus'' =
                    Some (EdmInt32 (ordinal Branch)))"
    by (rule impI) (rule main_empty_log [OF fresh empty _ ok])
  show "Collab GitLog c \<in> set (trace (snd (doUpgradeMain env options w))) \<longrightarrow>
            fst (doUpgradeMain env options w) = Inl TypeError
          \<and> (\<forall>call. Collab GitBranch call \<notin> set (trace (snd (doUpgradeMain env options w))))"
    by (rule impI) (rule doUpgradeMain_empty_log [OF fresh empty _ ok])
qed

theorem empty_log_type_error_witness:
  "trace freshWorld = [] \<and> commits emptyLogEnv = [] \<and> throws emptyLogEnv GitLog = None
   \<and> Collab GitLog (Git_log ''/tmp/0b5e'' ''main'')
        \<in> set (trace (snd (main emptyLogEnv acmeOptions freshWorld)))
   \<and> id_opt acmeOptions = Some ''r1'' \<and> ''r1'' \<noteq> []
   \<and> rejects emptyLogEnv (errorRequest acmeOptions ''r1'') = None
   \<and> Collab GitBranch (Git_branch ''/tmp/0b5e'' ''ts-upgrade-at-'')
        \<notin> set (trace (snd (main emptyLogEnv acmeOptions freshWorld)))
   \<and> fst (main emptyLogEnv acmeOptions freshWorld) = Inl TypeError
   \<and> rowProp (snd (main emptyLogEnv acmeOptions freshWorld)) (owner acmeOptions) ''r1'' ''status'' =
       Some (EdmInt32 (ordinal Error))
   \<and> rowProp (snd (main emptyLogEnv acmeOptions freshWorld)) (owner acmeOptions) ''r1''
        ''lastStatus'' = Some (EdmInt32 (ordinal Branch))
   \<and> Collab GitLog (Git_log ''/tmp/0b5e'' ''main'')
        \<in> set (trace (snd (doUpgradeMain emptyLogEnv acmeOptions freshWorld)))
   \<and> fst (doUpgradeMain emptyLogEnv acmeOptions freshWorld) = Inl TypeError"
proof -
  let ?c = "Git_log ''/tmp/0b5e'' ''main''"
  have h1: "trace freshWorld = []" by (simp add: freshWorld_def)
  have h2: "commits emptyLogEnv = []" by (simp add: emptyLogEnv_def)
  have h3: "Collab GitLog ?c \<in> set (trace (snd (main emptyLogEnv acmeOptions freshWorld)))"
    by code_simp
  have h4: "throws emptyLogEnv GitLog = None" by (simp add: emptyLogEnv_def calmEnv_def)
  have h5: "id_opt acmeOptions = Some ''r1''" by (simp add: acmeOptions_def)
  have h6: "''r1'' \<noteq> []" by simp
  have h7: "rejects emptyLogEnv (errorRequest acmeOptions ''r1'') = None"
    by (simp add: emptyLogEnv_def calmEnv_def)
  have h8: "Collab GitLog ?c \<in> set (trace (snd (doUpgradeMain emptyLogEnv acmeOptions freshWorld)))"
    by code_simp
  note inst = empty_log_type_error [OF h1 h2 h4, of ?c acmeOptions]
  from inst have "Collab GitLog ?c \<in> set (trace (snd (main emptyLogEnv acmeOptions freshWorld))) \<longrightarrow>
            (\<forall>call. Collab GitBranch call \<notin> set (trace (snd (main emptyLogEnv acmeOptions freshWorld))))
          \<and> (id_opt acmeOptions = None \<or> id_opt acmeOptions = Some [] \<longrightarrow>
               fst (main emptyLogEnv acmeOptions freshWorld) = Inl TypeError
               \<and> tables (snd (main emptyLogEnv acmeOptions freshWorld)) = tables freshWorld)
          \<and> (\<forall>i. id_opt acmeOptions = Some i \<and> i \<noteq> []
                   \<and> rejects emptyLogEnv (errorRequest acmeOptions i) = None \<longrightarrow>
               fst (main emptyLogEnv acmeOptions freshWorld) = Inl TypeError
               \<and> rowProp (snd (main emptyLogEnv acmeOptions freshWorld)) (owner acmeOptions) i ''status'' =
                    Some (EdmInt32 (ordinal Error))
               \<and> rowProp (snd (main emptyLogEnv acmeOptions freshWorld)) (owner acmeOptions) i ''lastStatus'' =
                    Some (EdmInt32 (ordinal Branch)))"
    by (rule conjunct1)
  from this h3 have part1:
    "(\<forall>call. Collab GitBranch call \<notin> set (trace (snd (main emptyLogEnv acmeOptions freshWorld))))
          \<and> (id_opt acmeOptions = None \<or> id_opt acmeOptions = Some [] \<longrightarrow>
               fst (main emptyLogEnv acmeOptions freshWorld) = Inl TypeError
               \<and> tables (snd (main emptyLogEnv acmeOptions freshWorld)) = tables freshWorld)
          \<and> (\<forall>i. id_opt acmeOptions = Some i \<and> i \<noteq> []
                   \<and> rejects emptyLogEnv (errorRequest acmeOptions i) = None \<longrightarrow>
               fst (main emptyLogEnv acmeOptions freshWorld) = Inl TypeError
               \<and> rowProp (snd (main emptyLogEnv acmeOptions freshWorld)) (owner acmeOptions) i ''status'' =
                    Some (EdmInt32 (ordinal Error))
               \<and> rowProp (snd (main emptyLogEnv acmeOptions freshWorld)) (owner acmeOptions) i ''lastStatus'' =
                    Some (EdmInt32 (ordinal Branch)))"
    by (rule mp)
  from part1 have c1: "Collab GitBranch (Git_branch ''/tmp/0b5e'' ''ts-upgrade-at-'')
        \<notin> set (trace (snd (main emptyLogEnv acmeOptions freshWorld)))"
    by (elim conjE allE)
  from part1 have "id_opt acmeOptions = Some ''r1'' \<and> ''r1'' \<noteq> []
        \<and> rejects emptyLogEnv (errorRequest acmeOptions ''r1'') = None \<longrightarrow>
      fst (main emptyLogEnv acmeOptions freshWorld) = Inl TypeError
      \<and> rowProp (snd (main emptyLogEnv acmeOptions freshWorld)) (owner acmeOptions) ''r1'' ''status'' =
          Some (EdmInt32 (ordinal Error))
      \<and> rowProp (snd (main emptyLogEnv acmeOptions freshWorld)) (owner acmeOptions) ''r1''
          ''lastStatus'' = Some (EdmInt32 (ordinal Branch))"
    by (elim conjE allE)
  then have c: "fst (main emptyLogEnv acmeOptions freshWorld) = Inl TypeError
      \<and> rowProp (snd (main emptyLogEnv acmeOptions freshWorld)) (owner acmeOptions) ''r1'' ''status'' =
          Some (EdmInt32 (ordinal Error))
      \<and> rowProp (snd (main emptyLogEnv acmeOptions freshWorld)) (owner acmeOptions) ''r1''
          ''lastStatus'' = Some (EdmInt32 (ordinal Branch))"
    using h5 h6 h7 by simp
  from c have c2: "fst (main emptyLogEnv acmeOptions freshWorld) = Inl TypeError" by (elim conjE)
  from c have c3: "rowProp (snd (main emptyLogEnv acmeOptions freshWorld)) (owner acmeOptions) ''r1''
      ''status'' = Some (EdmInt32 (ordinal Error))" by (elim conjE)
  from c have c4: "rowProp (snd (main emptyLogEnv acmeOptions freshWorld)) (owner acmeOptions) ''r1''
      ''lastStatus'' = Some (EdmInt32 (ordinal Branch))" by (elim conjE)
  from inst have "Collab GitLog ?c \<in> set (trace (snd (doUpgradeMain emptyLogEnv acmeOptions freshWorld))) \<longrightarrow>
            fst (doUpgradeMain emptyLogEnv acmeOptions freshWorld) = Inl TypeError
          \<and> (\<forall>call. Collab GitBranch call \<notin> set (trace (snd (doUpgradeMain emptyLogEnv acmeOptions freshWorld))))"
    by (rule conjunct2)
  from this h8 have "fst (doUpgradeMain emptyLogEnv acmeOptions freshWorld) = Inl TypeError
          \<and> (\<forall>call. Collab GitBranch call \<notin> set (trace (snd (doUpgradeMain emptyLogEnv acmeOptions freshWorld))))"
    by (rule mp)
  then have c5: "fst (doUpgradeMain emptyLogEnv acmeOptions freshWorld) = Inl TypeError"
    by (rule conjunct1)
  from h1 h2 h4 h3 h5 h6 h7 c1 c2 c3 c4 h8 c5 show ?thesis by (intro conjI)
qed

section \<open>Starting a run again (C5)\<close>

text \<open>
  The statements before the try block, when the client is built and the service accepts
  both requests: the row of the run is the new entity, every other row is as it was.
\<close>

lemma mainInit_accepted:
  assumes ident: "id_opt options = Some i" "i \<noteq> []"
    and built: "createTableServiceThrows env (Some (connectionString options)) = None"
    and acc: "rejects env (CreateTableIfNotExists tableName) = None"
      "rejects env (InsertOrReplaceEntity tableName (initialEntry env options i)) = None"
  shows "fst (mainInit env options w) = Inr ()"
    and "row (snd (mainInit env options w)) (owner options) i = Some (initialEntry env options i)"
    and "(own, j) \<noteq> (owner options, i) \<Longrightarrow> row (snd (mainInit env options w)) own j = row w own j"
  using ident acc
  by (auto simp: mainInit_built [OF built] createTableIfNotExists_def insertOrReplaceEntity_def
      andThen_def tableRequest_def Let_def row_def entityKey_initialEntry update_conv'
      split: option.splits sum.splits)

text \<open>
  Claim C5, amended. When a run with an id starts, the table client is built and the
  service accepts the two requests, then, whatever the ledger held (a record of an earlier
  run of the same owner and id included), the row of this run's (owner, id) is exactly the
  entity built from this run's options: its repo, branch and version, and status and
  lastStatus Auth; no property of an earlier record of that row remains. Every other row,
  that of the same id under another owner included, is what it was.
\<close>

theorem restart_replaces_record:
  assumes ident: "id_opt options = Some i" "i \<noteq> []"
    and built: "createTableServiceThrows env (Some (connectionString options)) = None"
    and acc: "rejects env (CreateTableIfNotExists tableName) = None"
      "rejects env (InsertOrReplaceEntity tableName (initialEntry env options i)) = None"
  shows "fst (mainInit env options w) = Inr ()
     \<and> row (snd (mainInit env options w)) (owner options) i =
         Some [(''PartitionKey'', EdmString (owner options)),
               (''RowKey'', EdmString i),
               (''owner'', EdmString (owner options)),
               (''repo'', EdmString (repo options)),
               (''branch'', EdmString (branchOf options)),
               (''version'', EdmInt32 (versionOf env options)),
               (''status'', EdmInt32 (ordinal Auth)),
               (''lastStatus'', EdmInt32 (ordinal Auth))]
     \<and> (\<forall>own j. (own, j) \<noteq> (owner options, i) \<longrightarrow>
           row (snd (mainInit env options w)) own j = row w own j)"
proof (intro conjI allI impI)
  show "fst (mainInit env options w) = Inr ()"
    by (rule mainInit_accepted(1) [OF ident built acc])
  show "row (snd (mainInit env options w)) (owner options) i =
         Some [(''PartitionKey'', EdmString (owner options)),
               (''RowKey'', EdmString i),
               (''owner'', EdmString (owner options)),
               (''repo'', EdmString (repo options)),
               (''branch'', EdmString (branchOf options)),
               (''version'', EdmInt32 (versionOf env options)),
               (''status'', EdmInt32 (ordinal Auth)),
               (''lastStatus'', EdmInt32 (ordinal Auth))]"
    using mainInit_accepted(2) [OF ident built acc, of w] by (simp add: initialEntry_def)
next
  fix own j
  assume "(own, j) \<noteq> (owner options, i)"
  then show "row (snd (mainInit env options w)) own j = row w own j"
    by (rule mainInit_accepted(3) [OF ident built acc])
qed

text \<open>
  C5, as the specification states it: r1 is submitted by acme and runs to Done, then r1 is
  submitted again by globex. The record of acme's run is neither replaced nor reset, and
  the status query for r1 still answers with it.
\<close>

theorem resubmit_other_owner_counterexample:
  "id_opt globexOptions = id_opt acmeOptions
   \<and> fst (main calmEnv acmeOptions freshWorld) =
       Inr ''https://api.github.com/repos/acme/widgets/pulls/1''
   \<and> fst (mainInit calmEnv globexOptions (snd (main calmEnv acmeOptions freshWorld))) = Inr ()
   \<and> rowProp (snd (mainInit calmEnv globexOptions (snd (main calmEnv acmeOptions freshWorld))))
        ''acme'' ''r1'' ''owner'' = Some (EdmString ''acme'')
   \<and> rowProp (snd (mainInit calmEnv globexOptions (snd (main calmEnv acmeOptions freshWorld))))
        ''acme'' ''r1'' ''status'' = Some (EdmInt32 (ordinal Done))
   \<and> rowProp (snd (mainInit calmEnv globexOptions (snd (main calmEnv acmeOptions freshWorld))))
        ''acme'' ''r1'' ''lastStatus'' \<noteq> Some (EdmInt32 (ordinal Auth))
   \<and> rowProp (snd (mainInit calmEnv globexOptions (snd (main calmEnv acmeOptions freshWorld))))
        ''globex'' ''r1'' ''status'' = Some (EdmInt32 (ordinal Auth))
   \<and> fst (httpTrigger calmEnv ''upgradeProcess'' ''r1''
             (snd (mainInit calmEnv globexOptions (snd (main calmEnv acmeOptions freshWorld))))) =
       Inr (Some [(''PartitionKey'', EdmString ''acme''), (''RowKey'', EdmString ''r1''),
                  (''owner'', EdmString ''acme''), (''repo'', EdmString ''widgets''),
                  (''branch'', EdmString ''main''), (''version'', EdmInt32 7),
                  (''status'', EdmInt32 11), (''lastStatus'', EdmInt32 11),
                  (''Timestamp'', EdmDateTime ''2020-05-01T10:00:00Z''),
                  (''.metadata'', Metadata ''W/1'')])"
  by code_simp

theorem restart_replaces_record_witness:
  "id_opt gadgetsOptions = Some ''r1'' \<and> ''r1'' \<noteq> []
   \<and> createTableServiceThrows calmEnv (Some (connectionString gadgetsOptions)) = None
   \<and> rejects calmEnv (CreateTableIfNotExists tableName) = None
   \<and> rejects calmEnv (InsertOrReplaceEntity tableName (initialEntry calmEnv gadgetsOptions ''r1'')) = None
   \<and> rowProp annotatedWorld ''acme'' ''r1'' ''note'' = Some (EdmString ''checked by hand'')
   \<and> rowProp annotatedWorld ''acme'' ''r1'' ''status'' = Some (EdmInt32 11)
   \<and> fst (mainInit calmEnv gadgetsOptions annotatedWorld) = Inr ()
   \<and> row (snd (mainInit calmEnv gadgetsOptions annotatedWorld)) ''acme'' ''r1'' =
        Some [(''PartitionKey'', EdmString ''acme''), (''RowKey'', EdmString ''r1''),
              (''owner'', EdmString ''acme''), (''repo'', EdmString ''gadgets''),
              (''branch'', EdmString ''master''), (''version'', EdmInt32 3),
              (''status'', EdmInt32 0), (''lastStatus'', EdmInt32 0)]
   \<and> (''globex'', ''r1'') \<noteq> (owner gadgetsOptions, ''r1'')
   \<and> row (snd (mainInit calmEnv gadgetsOptions annotatedWorld)) ''globex'' ''r1'' =
       row annotatedWorld ''globex'' ''r1''"
proof -
  have h1: "id_opt gadgetsOptions = Some ''r1''" by (simp add: gadgetsOptions_def)
  have h2: "''r1'' \<noteq> []" by simp
  have h3: "createTableServiceThrows calmEnv (Some (connectionString gadgetsOptions)) = None"
    by (simp add: calmEnv_def)
  have h4: "rejects calmEnv (CreateTableIfNotExists tableName) = None" by (simp add: calmEnv_def)
  have h5: "rejects calmEnv (InsertOrReplaceEntity tableName
      (initialEntry calmEnv gadgetsOptions ''r1'')) = None" by (simp add: calmEnv_def)
  have h6: "rowProp annotatedWorld ''acme'' ''r1'' ''note'' = Some (EdmString ''checked by hand'')"
    by code_simp
  have h7: "rowProp annotatedWorld ''acme'' ''r1'' ''status'' = Some (EdmInt32 11)"
    by code_simp
  have h8: "(''globex'', ''r1'') \<noteq> (owner gadgetsOptions, ''r1'')"
    by (simp add: gadgetsOptions_def)
  note inst = restart_replaces_record [OF h1 h2 h3 h4 h5, of annotatedWorld]
  from inst have c1: "fst (mainInit calmEnv gadgetsOptions annotatedWorld) = Inr ()"
    by (elim conjE)
  from inst have c2: "row (snd (mainInit calmEnv gadgetsOptions annotatedWorld)) ''acme'' ''r1'' =
        Some [(''PartitionKey'', EdmString ''acme''), (''RowKey'', EdmString ''r1''),
              (''owner'', EdmString ''acme''), (''repo'', EdmString ''gadgets''),
              (''branch'', EdmString ''master''), (''version'', EdmInt32 3),
              (''status'', EdmInt32 0), (''lastStatus'', EdmInt32 0)]"
    by (simp add: gadgetsOptions_def branchOf_def versionOf_def)
  from inst have "(''globex'', ''r1'') \<noteq> (owner gadgetsOptions, ''r1'') \<longrightarrow>
      row (snd (mainInit calmEnv gadgetsOptions annotatedWorld)) ''globex'' ''r1'' =
      row annotatedWorld ''globex'' ''r1''"
    by (elim conjE allE)
  from this h8 have c3: "row (snd (mainInit calmEnv gadgetsOptions annotatedWorld)) ''globex'' ''r1'' =
      row annotatedWorld ''globex'' ''r1''"
    by (rule mp)
  from h1 h2 h3 h4 h5 h6 h7 c1 c2 h8 c3 show ?thesis by (intro conjI)
qed

section \<open>The status query (C8)\<close>






lemma httpTrigger_thrown:
  "createTableServiceThrows env (AZURE_CONNECTION_STRING env) = Some e \<Longrightarrow>
   httpTrigger env taskTableName i w = (Inl e, w)"
  by (simp add: httpTrigger_def createTableService_def andThen_def)






end
